theory Spec2Isabelle
  imports Complex_Main "HOL-Library.Multiset" "HOL-Library.AList" "HOL-Library.Log_Nat"
begin

section \<open>Data model\<close>

text \<open>
  A row is the object that \<^verbatim>\<open>csv-parser\<close> builds for one line of a CSV file: the header
  names with the cell texts, in header order. Reading a field that the object does not
  have gives \<^verbatim>\<open>undefined\<close> in JavaScript, here \<open>None\<close>. The object spread
  \<^verbatim>\<open>{...row, "Product Description": v}\<close> keeps the position of a key that is already
  there and appends a new one, which is what \<open>AList.update\<close> does.
\<close>

type_synonym row = "(string \<times> string) list"

definition get_field :: "row \<Rightarrow> string \<Rightarrow> string option" where
  "get_field r k = map_of r k"

definition set_field :: "row \<Rightarrow> string \<Rightarrow> string \<Rightarrow> row" where
  "set_field r k v = AList.update k v r"

text \<open>
  JavaScript truthiness of a field value: \<^verbatim>\<open>undefined\<close> and the empty string are falsy,
  every other string is truthy.
\<close>

fun truthy :: "string option \<Rightarrow> bool" where
  "truthy None = False"
| "truthy (Some s) = (s \<noteq> [])"

text \<open>Interpolation of a value into a template literal.\<close>

fun js_string :: "string option \<Rightarrow> string" where
  "js_string None = ''undefined''"
| "js_string (Some s) = s"

text \<open>
  A thrown error, by the classes that the program tells apart: a \<^verbatim>\<open>TypeError\<close>, the
  \<^verbatim>\<open>AbortError\<close> of \<^verbatim>\<open>p-retry\<close> (which wraps its \<^verbatim>\<open>originalError\<close>), and every other
  \<^verbatim>\<open>Error\<close>; \<open>message\<close> is its \<^verbatim>\<open>message\<close> property.
\<close>

datatype error = Error string | TypeError string | AbortError error

primrec message :: "error \<Rightarrow> string" where
  "message (Error m) = m"
| "message (TypeError m) = m"
| "message (AbortError originalError) = message originalError"

record usage_info =
  prompt_tokens :: nat
  completion_tokens :: nat

text \<open>What \<^verbatim>\<open>callOpenAI\<close> returns.\<close>

record gen_result =
  description :: string
  usage :: usage_info

text \<open>
  The part of the API's response that the code reads:
  \<^verbatim>\<open>response.choices[0].message.content\<close>, which the API leaves \<^verbatim>\<open>null\<close> when the
  model gives no text (\<open>None\<close>), and \<^verbatim>\<open>response.usage\<close>.
\<close>

record api_response =
  content :: "string option"
  response_usage :: usage_info

datatype content_part = Text string | Image_url string

datatype chat_message = Message (role: string) (parts: "content_part list")

record request =
  model :: string
  messages :: "chat_message list"
  max_tokens :: nat

text \<open>
  An entry of the file system: nothing at the path, something that exists but whose
  read throws, or a file with its bytes.
\<close>

datatype fs_entry = Missing | Unreadable error | Readable string

text \<open>
  The world outside the program. A text is the list of the bytes of its UTF-8 encoding.
  \<open>fs\<close> is the file system. \<open>csv\<close> is the \<^verbatim>\<open>csv-parser\<close> stream on a file's bytes:
  the rows of its \<^verbatim>\<open>data\<close> events in the order they are emitted, then \<^verbatim>\<open>end\<close>
  (\<open>None\<close>) or \<^verbatim>\<open>error\<close>. \<open>encode\<close> is the CSV text that \<^verbatim>\<open>@fast-csv/format\<close>
  writes for a header line and the lines of cells under it. \<open>isNetworkError\<close> is the
  test that \<^verbatim>\<open>p-retry\<close> makes on the message of a \<^verbatim>\<open>TypeError\<close>. \<open>brandPhrases\<close> is
  the export of \<^verbatim>\<open>brandPhrases.js\<close>. \<open>create\<close> is
  \<^verbatim>\<open>client.chat.completions.create\<close>: what the API answers to the request made for
  input row \<open>index\<close> at attempt \<open>n\<close> (attempts count from 1).
\<close>

record env =
  fs :: "string \<Rightarrow> fs_entry"
  csv :: "string \<Rightarrow> row list \<times> error option"
  encode :: "string list \<Rightarrow> string list list \<Rightarrow> string"
  isNetworkError :: "string \<Rightarrow> bool"
  brandPhrases :: "string list"
  create :: "nat \<Rightarrow> nat \<Rightarrow> request \<Rightarrow> error + api_response"

section \<open>The prompt: \<^verbatim>\<open>productDescriptionPrompt\<close>\<close>

fun join :: "string \<Rightarrow> string list \<Rightarrow> string" where
  "join sep [] = []"
| "join sep [x] = x"
| "join sep (x # y # ys) = x @ sep @ join sep (y # ys)"

definition productDescriptionPrompt ::
  "string list \<Rightarrow> string option \<Rightarrow> string option \<Rightarrow> string option \<Rightarrow> string option
     \<Rightarrow> string option \<Rightarrow> string" where
  "productDescriptionPrompt phrases title vendor category type tags =
     ''\<newline>  You are a marketing AI. Write a compelling product description.\<newline>''
     @ ''\<newline>  Title: '' @ js_string title
     @ ''\<newline>  Vendor: '' @ js_string vendor
     @ ''\<newline>  Category: '' @ js_string category
     @ ''\<newline>  Type: '' @ js_string type
     @ ''\<newline>  Tags: '' @ js_string tags
     @ ''\<newline>  Brand phrases: '' @ join '', '' phrases
     @ ''\<newline>\<newline>  Don'' @ [CHR 0x27] @ ''t send back a title, just send a description.\<newline>''
     @ ''\<newline>  Keep it professional, engaging, and under 150 words.\<newline>  ''"

section \<open>The generation: \<^verbatim>\<open>generator.js\<close>\<close>

definition startsWith :: "string \<Rightarrow> string \<Rightarrow> bool" where
  "startsWith s p = (take (length p) s = p)"

definition endsWith :: "string \<Rightarrow> string \<Rightarrow> bool" where
  "endsWith s p = (length p \<le> length s \<and> drop (length s - length p) s = p)"

text \<open>
  The white space and the line terminators of JavaScript, each by its UTF-8 bytes:
  U+0009 to U+000D, U+0020, U+00A0, U+1680, U+2000 to U+200A, U+2028, U+2029, U+202F,
  U+205F, U+3000 and U+FEFF.
\<close>

definition white_space :: "string list" where
  "white_space =
     [[CHR 0x09], [CHR 0x0A], [CHR 0x0B], [CHR 0x0C], [CHR 0x0D], [CHR 0x20],
      [CHR 0xC2, CHR 0xA0], [CHR 0xE1, CHR 0x9A, CHR 0x80],
      [CHR 0xE2, CHR 0x80, CHR 0x80], [CHR 0xE2, CHR 0x80, CHR 0x81],
      [CHR 0xE2, CHR 0x80, CHR 0x82], [CHR 0xE2, CHR 0x80, CHR 0x83],
      [CHR 0xE2, CHR 0x80, CHR 0x84], [CHR 0xE2, CHR 0x80, CHR 0x85],
      [CHR 0xE2, CHR 0x80, CHR 0x86], [CHR 0xE2, CHR 0x80, CHR 0x87],
      [CHR 0xE2, CHR 0x80, CHR 0x88], [CHR 0xE2, CHR 0x80, CHR 0x89],
      [CHR 0xE2, CHR 0x80, CHR 0x8A], [CHR 0xE2, CHR 0x80, CHR 0xA8],
      [CHR 0xE2, CHR 0x80, CHR 0xA9], [CHR 0xE2, CHR 0x80, CHR 0xAF],
      [CHR 0xE2, CHR 0x81, CHR 0x9F], [CHR 0xE3, CHR 0x80, CHR 0x80],
      [CHR 0xEF, CHR 0xBB, CHR 0xBF]]"

text \<open>
  \<^verbatim>\<open>String.prototype.trim\<close>: the white space is taken off the start and off the end,
  one character at a time; \<open>n\<close> bounds the number of characters taken off, and the
  length of the text is bound enough.
\<close>

primrec trimStart :: "nat \<Rightarrow> string \<Rightarrow> string" where
  "trimStart 0 s = s"
| "trimStart (Suc n) s =
     (case find (startsWith s) white_space of
        None \<Rightarrow> s
      | Some w \<Rightarrow> trimStart n (drop (length w) s))"

primrec trimEnd :: "nat \<Rightarrow> string \<Rightarrow> string" where
  "trimEnd 0 s = s"
| "trimEnd (Suc n) s =
     (case find (endsWith s) white_space of
        None \<Rightarrow> s
      | Some w \<Rightarrow> trimEnd n (take (length s - length w) s))"

definition trim :: "string \<Rightarrow> string" where
  "trim s = trimEnd (length s) (trimStart (length s) s)"

text \<open>\<^verbatim>\<open>Buffer.toString("base64")\<close>: the standard alphabet, padded with \<open>=\<close>.\<close>

definition b64 :: "nat \<Rightarrow> char" where
  "b64 n = ''ABCDEFGHIJKLMNOPQRSTUVWXYZabcdefghijklmnopqrstuvwxyz0123456789+/'' ! (n mod 64)"

fun base64 :: "nat list \<Rightarrow> string" where
  "base64 [] = []"
| "base64 [a] = [b64 (a div 4), b64 ((a mod 4) * 16), CHR ''='', CHR ''='']"
| "base64 [a, b] =
     [b64 (a div 4), b64 ((a mod 4) * 16 + b div 16), b64 ((b mod 16) * 4), CHR ''='']"
| "base64 (a # b # c # bs) =
     [b64 (a div 4), b64 ((a mod 4) * 16 + b div 16), b64 ((b mod 16) * 4 + c div 64),
      b64 (c mod 64)] @ base64 bs"

text \<open>
  \<^verbatim>\<open>callOpenAI(messages)\<close>: one call of the API. A rejection of the call is the error;
  a response gives the trimmed text and the usage; \<^verbatim>\<open>.trim()\<close> on a \<^verbatim>\<open>null\<close> content
  throws a \<^verbatim>\<open>TypeError\<close>. The response is taken to have a first choice and a usage
  with its two counts.
\<close>

definition callOpenAI :: "env \<Rightarrow> nat \<Rightarrow> nat \<Rightarrow> chat_message list \<Rightarrow> error + gen_result" where
  "callOpenAI e index n msgs =
     (case create e index n \<lparr>model = ''gpt-4o-mini'', messages = msgs, max_tokens = 250\<rparr> of
        Inl err \<Rightarrow> Inl err
      | Inr response \<Rightarrow>
          (case content response of
             None \<Rightarrow>
               Inl (TypeError (''Cannot read properties of null (reading '' @ [CHR 0x27]
                      @ ''trim'' @ [CHR 0x27] @ '')''))
           | Some text \<Rightarrow>
               Inr \<lparr>description = trim text, usage = response_usage response\<rparr>))"

text \<open>
  \<^verbatim>\<open>pRetry(input, {retries, ...})\<close> of the \<^verbatim>\<open>p-retry\<close> package, which is not part of
  the repository; the model follows the package. \<open>input\<close> is called with the attempt
  number, from 1. A result resolves the promise. Of a thrown error the package asks first
  whether it retries it: it throws the \<^verbatim>\<open>originalError\<close> of an \<^verbatim>\<open>AbortError\<close> and a
  \<^verbatim>\<open>TypeError\<close> that is no network error at once, without another call. Any other
  error is passed to \<^verbatim>\<open>onFailedAttempt\<close> (here a warning on the console, which is not
  modelled) and the call is made again while retries are left; \<open>retries\<close> counts the
  calls after the first one. With no retry left the promise rejects with the error of
  the last call (the versions of the package that are built on \<^verbatim>\<open>retry\<close> reject with
  its \<^verbatim>\<open>mainError()\<close>, the error whose message occurred most often, which is the error
  of the last call when the calls fail with the same message). The delays between the attempts (\<^verbatim>\<open>factor\<close>, \<^verbatim>\<open>minTimeout\<close>,
  \<^verbatim>\<open>maxTimeout\<close>) are real time and have no part in the value. The second component
  of the result counts the calls of \<open>input\<close>.
\<close>

definition retried :: "env \<Rightarrow> error \<Rightarrow> bool" where
  "retried e err =
     (case err of
        Error m \<Rightarrow> True
      | TypeError m \<Rightarrow> isNetworkError e m
      | AbortError originalError \<Rightarrow> False)"

fun thrown :: "error \<Rightarrow> error" where
  "thrown (AbortError originalError) = originalError"
| "thrown err = err"

fun pRetry :: "env \<Rightarrow> (nat \<Rightarrow> error + 'a) \<Rightarrow> nat \<Rightarrow> nat \<Rightarrow> (error + 'a) \<times> nat" where
  "pRetry e input attemptNumber 0 =
     (case input attemptNumber of
        Inr v \<Rightarrow> (Inr v, 1)
      | Inl err \<Rightarrow> (Inl (thrown err), 1))"
| "pRetry e input attemptNumber (Suc retriesLeft) =
     (case input attemptNumber of
        Inr v \<Rightarrow> (Inr v, 1)
      | Inl err \<Rightarrow>
          (if retried e err then
             (case pRetry e input (Suc attemptNumber) retriesLeft of
                (r, k) \<Rightarrow> (r, Suc k))
           else (Inl (thrown err), 1)))"

text \<open>\<^verbatim>\<open>fs.existsSync\<close> and \<^verbatim>\<open>fs.readFileSync\<close> on the file system of the model.\<close>

definition existsSync :: "env \<Rightarrow> string \<Rightarrow> bool" where
  "existsSync e path = (fs e path \<noteq> Missing)"

definition readFileSync :: "env \<Rightarrow> string \<Rightarrow> error + string" where
  "readFileSync e path =
     (case fs e path of
        Readable bytes \<Rightarrow> Inr bytes
      | Unreadable err \<Rightarrow> Inl err
      | Missing \<Rightarrow> Inl (Error ''ENOENT: no such file or directory''))"

text \<open>
  The image part that \<^verbatim>\<open>generateDescription\<close> pushes onto the message's content,
  from the row's \<^verbatim>\<open>Image Src\<close>: the two branches of the source and the
  \<^verbatim>\<open>catch\<close> of the read, which only warns on the console.
\<close>

definition imageParts :: "env \<Rightarrow> string option \<Rightarrow> content_part list" where
  "imageParts e imageUrl =
     (if truthy imageUrl \<and> startsWith (the imageUrl) ''http'' then
        [Image_url (the imageUrl)]
      else if truthy imageUrl \<and> existsSync e (the imageUrl) then
        (case readFileSync e (the imageUrl) of
           Inr bytes \<Rightarrow> [Image_url (''data:image/jpeg;base64,'' @ base64 (map of_char bytes))]
         | Inl err \<Rightarrow> [])
      else [])"

text \<open>The \<^verbatim>\<open>prompt\<close> of \<^verbatim>\<open>generateDescription\<close> and its \<^verbatim>\<open>messages\<close>.\<close>

definition prompt :: "env \<Rightarrow> row \<Rightarrow> string" where
  "prompt e row =
     productDescriptionPrompt (brandPhrases e)
       (get_field row ''Title'') (get_field row ''Vendor'')
       (get_field row ''Product Category'') (get_field row ''Type'')
       (get_field row ''Tags'')"

definition buildMessages :: "env \<Rightarrow> row \<Rightarrow> chat_message list" where
  "buildMessages e row =
     [Message ''user'' (Text (prompt e row) # imageParts e (get_field row ''Image Src''))]"

text \<open>
  \<^verbatim>\<open>generateDescription(row)\<close> for the input row at \<open>index\<close>: the result or the error
  it throws, and the number of calls of \<^verbatim>\<open>callOpenAI\<close> it made.
\<close>

definition generateDescription :: "env \<Rightarrow> nat \<Rightarrow> row \<Rightarrow> (error + gen_result) \<times> nat" where
  "generateDescription e index row =
     pRetry e (\<lambda>n. callOpenAI e index n (buildMessages e row)) 1 5"

section \<open>The batch run: \<^verbatim>\<open>loadCsv\<close> and \<^verbatim>\<open>processCSV\<close>\<close>

record pricing =
  input_rate :: rat
  output_rate :: rat

text \<open>
  The pricing table, in dollars per million tokens (the fields \<^verbatim>\<open>input\<close> and
  \<^verbatim>\<open>output\<close> of the source). The table holds the decimal numbers as they are
  written; the estimate rounds them to the numbers that JavaScript reads.
\<close>

definition MODEL_PRICING :: "string \<rightharpoonup> pricing" where
  "MODEL_PRICING = [''gpt-4o-mini'' \<mapsto> \<lparr>input_rate = 150 / 1000, output_rate = 600 / 1000\<rparr>]"

text \<open>
  \<^verbatim>\<open>loadCsv(file)\<close>: the empty array when nothing is at the path; otherwise the rows
  that the parser emits, pushed one by one, when the stream ends, and the rejection when
  it errs. A file that exists and cannot be read ends the run with its error.
\<close>

definition loadCsv :: "env \<Rightarrow> string \<Rightarrow> error + row list" where
  "loadCsv e file =
     (if \<not> existsSync e file then Inr []
      else
        (case readFileSync e file of
           Inl err \<Rightarrow> Inl err
         | Inr bytes \<Rightarrow>
             (case csv e bytes of
                (emitted, None) \<Rightarrow> Inr (fold (\<lambda>row rows. rows @ [row]) emitted [])
              | (emitted, Some err) \<Rightarrow> Inl err)))"

text \<open>
  The state that the units of \<^verbatim>\<open>processCSV\<close> share: the rows passed to
  \<^verbatim>\<open>outStream.write\<close>, in the order of the writes (the file that the formatter makes
  of them is \<open>writeCsv\<close> below), and the two counters. The counters hold sums of token
  counts, which the numbers of JavaScript hold exactly up to \<open>2\<^sup>5\<^sup>3\<close>; the model has them
  as natural numbers. \<open>calls\<close> is not in the source: it counts the calls of
  \<^verbatim>\<open>callOpenAI\<close>.
\<close>

record run_state =
  out :: "row list"
  totalPromptTokens :: nat
  totalCompletionTokens :: nat
  calls :: nat

text \<open>
  \<^verbatim>\<open>new Map(existingRows.map((row) => [row["Handle"], row]))\<close>: the entries are set
  one after the other. A key is the \<^verbatim>\<open>Handle\<close> of a row, \<open>None\<close> when the row has
  none (\<^verbatim>\<open>undefined\<close> is a key like any other).
\<close>

definition existingMap :: "row list \<Rightarrow> (string option \<rightharpoonup> row)" where
  "existingMap existingRows =
     fold (\<lambda>row m. m(get_field row ''Handle'' \<mapsto> row)) existingRows Map.empty"

text \<open>The test of the unit: the row is skipped.\<close>

definition skips :: "(string option \<rightharpoonup> row) \<Rightarrow> row \<Rightarrow> bool" where
  "skips m row =
     (m (get_field row ''Handle'') \<noteq> None \<and>
      truthy (get_field (the (m (get_field row ''Handle''))) ''Product Description''))"

text \<open>
  The unit of work of one input row, as a change of the shared state. Nothing but its
  last step, after the \<^verbatim>\<open>await\<close>, touches the state, and JavaScript runs that step
  without interruption.
\<close>

definition task :: "env \<Rightarrow> (string option \<rightharpoonup> row) \<Rightarrow> nat \<Rightarrow> row \<Rightarrow> run_state \<Rightarrow> run_state" where
  "task e m index row st =
     (if skips m row then st
      else
        (case generateDescription e index row of
           (Inr g, k) \<Rightarrow>
             st\<lparr>totalPromptTokens := totalPromptTokens st + prompt_tokens (usage g),
                totalCompletionTokens := totalCompletionTokens st + completion_tokens (usage g),
                out := out st @ [set_field row ''Product Description'' (description g)],
                calls := calls st + k\<rparr>
         | (Inl err, k) \<Rightarrow>
             st\<lparr>out := out st @ [set_field row ''Product Description'' (''ERROR: '' @ message err)],
                calls := calls st + k\<rparr>))"

text \<open>
  The body of \<^verbatim>\<open>processCSV\<close> between the two loads and the report. \<open>order\<close> is
  the order in which the units reach their last step: \<^verbatim>\<open>p-limit\<close> starts them in input
  order, and which of the running calls answers first is up to the outside world. A
  run has a permutation of the indices of \<open>inputRows\<close> for its order; an index that
  is no index of an input row stands for no unit.
\<close>

definition processRows :: "env \<Rightarrow> row list \<Rightarrow> row list \<Rightarrow> nat list \<Rightarrow> run_state" where
  "processRows e inputRows existingRows order =
     fold (\<lambda>index st.
             if index < length inputRows
             then task e (existingMap existingRows) index (inputRows ! index) st
             else st)
       order
       \<lparr>out = fold (\<lambda>row rows. rows @ [row]) existingRows [],
        totalPromptTokens = 0, totalCompletionTokens = 0, calls = 0\<rparr>"

text \<open>
  A number of JavaScript is a binary64 floating-point number, and every operation gives
  the exact result rounded to the nearest such number, ties to the even significand. A
  number is modelled by its exact value, a rational. \<open>fl\<close> is the rounding, for the
  numbers whose exponent is in the normal range, which holds those of the estimate:
  \<open>binade x\<close> is the exponent of \<open>x\<close>, the \<open>e\<close> with \<open>2\<^sup>e \<le> x < 2\<^sup>e\<^sup>+\<^sup>1\<close>, and the
  significand has 53 bits.
\<close>

definition round_even :: "rat \<Rightarrow> int" where
  "round_even q =
     (let f = \<lfloor>q\<rfloor>; r = q - of_int f
      in if r < 1 / 2 then f else if 1 / 2 < r then f + 1 else if even f then f else f + 1)"

definition binade :: "rat \<Rightarrow> int" where
  "binade x =
     (let d = bitlen (fst (quotient_of x)) - bitlen (snd (quotient_of x))
      in if 2 powi d \<le> x then d else d - 1)"

definition fl :: "rat \<Rightarrow> rat" where
  "fl x =
     (if x = 0 then 0
      else if 0 < x then
        of_int (round_even (x * 2 powi (52 - binade x))) * 2 powi (binade x - 52)
      else
        - (of_int (round_even (- x * 2 powi (52 - binade (- x)))) * 2 powi (binade (- x) - 52)))"

record cost =
  inputCost :: rat
  outputCost :: rat
  totalCost :: rat

text \<open>
  The estimate at the end of \<^verbatim>\<open>processCSV\<close>: the literals of the table, the totals
  and every division, product and sum are binary64 numbers. Reading the rates of a model
  that the table lacks throws a \<^verbatim>\<open>TypeError\<close>.
\<close>

definition estimate :: "string \<Rightarrow> nat \<Rightarrow> nat \<Rightarrow> error + cost" where
  "estimate modelName promptTotal completionTotal =
     (case MODEL_PRICING modelName of
        None \<Rightarrow>
          Inl (TypeError (''Cannot read properties of undefined (reading '' @ [CHR 0x27]
                 @ ''input'' @ [CHR 0x27] @ '')''))
      | Some p \<Rightarrow>
          (let ic = fl (fl (fl (of_nat promptTotal) / 1000000) * fl (input_rate p));
               oc = fl (fl (fl (of_nat completionTotal) / 1000000) * fl (output_rate p))
           in Inr \<lparr>inputCost = ic, outputCost = oc, totalCost = fl (ic + oc)\<rparr>))"

text \<open>
  \<^verbatim>\<open>x.toFixed(f)\<close> for \<open>x \<ge> 0\<close>, as the report prints a cost: the digits of the
  integer \<open>n\<close> nearest to \<open>x \<times> 10\<^sup>f\<close> (the larger one of two), with the point before
  the last \<open>f\<close> of them. \<open>toFixed_scaled f x\<close> is that \<open>n\<close>.
\<close>

definition toFixed_scaled :: "nat \<Rightarrow> rat \<Rightarrow> int" where
  "toFixed_scaled f x = \<lfloor>x * 10 ^ f + 1 / 2\<rfloor>"

text \<open>
  The file that \<^verbatim>\<open>outStream\<close> leaves, from the rows written to it.
  \<^verbatim>\<open>format({ headers: true })\<close> takes the columns from the keys of the first row
  written; every row is laid out by these columns, a column that the row lacks as the
  empty cell, and what else the row holds is left out. With no row written the file is
  empty.
\<close>

definition cells :: "string list \<Rightarrow> row \<Rightarrow> string list" where
  "cells columns row =
     map (\<lambda>k. case get_field row k of None \<Rightarrow> [] | Some v \<Rightarrow> v) columns"

definition writeCsv :: "env \<Rightarrow> row list \<Rightarrow> string" where
  "writeCsv e rows =
     (case rows of
        [] \<Rightarrow> []
      | first # _ \<Rightarrow> encode e (map fst first) (map (cells (map fst first)) rows))"

text \<open>
  \<^verbatim>\<open>processCSV(inputFile, outputFile, model)\<close>: a failed load ends the run before
  anything is written; otherwise the file system with the output file as the run
  leaves it, the final state, and the estimate or its error.
\<close>

definition processCSV ::
  "env \<Rightarrow> string \<Rightarrow> string \<Rightarrow> string \<Rightarrow> nat list
     \<Rightarrow> error + ((string \<Rightarrow> fs_entry) \<times> run_state \<times> (error + cost))" where
  "processCSV e inputFile outputFile modelName order =
     (case loadCsv e inputFile of
        Inl err \<Rightarrow> Inl err
      | Inr inputRows \<Rightarrow>
          (case loadCsv e outputFile of
             Inl err \<Rightarrow> Inl err
           | Inr existingRows \<Rightarrow>
               (let st = processRows e inputRows existingRows order
                in Inr ((fs e)(outputFile := Readable (writeCsv e (out st))), st,
                        estimate modelName (totalPromptTokens st) (totalCompletionTokens st)))))"

section \<open>Definitions for the statements\<close>

text \<open>
  The description field that the specification asks of a row written for an input row:
  the generated description, or the error indicator with the reason of the failure.
\<close>

definition description_or_marker :: "env \<Rightarrow> nat \<Rightarrow> row \<Rightarrow> string" where
  "description_or_marker e index row =
     (case fst (generateDescription e index row) of
        Inr g \<Rightarrow> description g
      | Inl err \<Rightarrow> ''ERROR: '' @ message err)"

text \<open>
  The rows that the unit of the input row at \<open>index\<close> writes, and the number of calls
  of the API that it makes.
\<close>

definition unit_rows :: "env \<Rightarrow> (string option \<rightharpoonup> row) \<Rightarrow> row list \<Rightarrow> nat \<Rightarrow> row list" where
  "unit_rows e m inputRows index =
     (if index < length inputRows \<and> \<not> skips m (inputRows ! index)
      then [set_field (inputRows ! index) ''Product Description''
              (description_or_marker e index (inputRows ! index))]
      else [])"

definition unit_calls :: "env \<Rightarrow> (string option \<rightharpoonup> row) \<Rightarrow> row list \<Rightarrow> nat \<Rightarrow> nat" where
  "unit_calls e m inputRows index =
     (if index < length inputRows \<and> \<not> skips m (inputRows ! index)
      then snd (generateDescription e index (inputRows ! index))
      else 0)"

text \<open>
  \<open>close_to k x y\<close>: \<open>x\<close> is \<open>y\<close> up to \<open>k\<close> roundings, each with a relative error of
  at most \<open>2\<^sup>-\<^sup>5\<^sup>3\<close>.
\<close>

definition close_to :: "nat \<Rightarrow> rat \<Rightarrow> rat \<Rightarrow> bool" where
  "close_to k x y = ((1 - 1 / 2 ^ 53) ^ k * y \<le> x \<and> x \<le> (1 + 1 / 2 ^ 53) ^ k * y)"

text \<open>
  The cost of the specification: the formula in exact arithmetic.
\<close>

definition formula_cost :: "pricing \<Rightarrow> nat \<Rightarrow> nat \<Rightarrow> rat" where
  "formula_cost p promptTotal completionTotal =
     of_nat promptTotal / 1000000 * input_rate p + of_nat completionTotal / 1000000 * output_rate p"

text \<open>
  The rows that \<^verbatim>\<open>csv-parser\<close> reads from the file that a run has written: one row for
  each row written, with the columns of the file and the cells under them.
\<close>

definition reload :: "row list \<Rightarrow> row list" where
  "reload rows =
     (case rows of
        [] \<Rightarrow> []
      | first # _ \<Rightarrow> map (\<lambda>row. zip (map fst first) (cells (map fst first) row)) rows)"

text \<open>
  Two runs, one after the other on the same files; the API of the second run is
  \<open>create'\<close>.
\<close>

definition run_twice ::
  "env \<Rightarrow> (nat \<Rightarrow> nat \<Rightarrow> request \<Rightarrow> error + api_response) \<Rightarrow> string \<Rightarrow> string \<Rightarrow> string
     \<Rightarrow> nat list \<Rightarrow> nat list \<Rightarrow> error + ((string \<Rightarrow> fs_entry) \<times> run_state \<times> (error + cost))" where
  "run_twice e create' inputFile outputFile modelName order order' =
     (case processCSV e inputFile outputFile modelName order of
        Inl err \<Rightarrow> Inl err
      | Inr (fs1, st1, c1) \<Rightarrow>
          processCSV (e\<lparr>fs := fs1, create := create'\<rparr>) inputFile outputFile modelName order')"

text \<open>
  A network-retrievable locator of the specification: a text that begins with the scheme
  \<^verbatim>\<open>http://\<close> or \<^verbatim>\<open>https://\<close>, upper and lower case alike.
\<close>

definition lower :: "char \<Rightarrow> char" where
  "lower c =
     (if 65 \<le> (of_char c :: nat) \<and> (of_char c :: nat) \<le> 90
      then char_of (of_char c + (32 :: nat)) else c)"

definition begins_with_network_scheme :: "string \<Rightarrow> bool" where
  "begins_with_network_scheme url =
     (startsWith (map lower url) ''http://'' \<or> startsWith (map lower url) ''https://'')"

subsection \<open>Sample data\<close>

text \<open>
  A plain CSV text for the samples, for cells without commas or line feeds: the cells of
  a line joined by commas, every line closed by a line feed; and its parser.
\<close>

fun split :: "char \<Rightarrow> string \<Rightarrow> string list" where
  "split c [] = [[]]"
| "split c (x # xs) =
     (if x = c then [] # split c xs
      else (case split c xs of [] \<Rightarrow> [[x]] | y # ys \<Rightarrow> (x # y) # ys))"

definition plain_encode :: "string list \<Rightarrow> string list list \<Rightarrow> string" where
  "plain_encode columns lines =
     concat (map (\<lambda>line. join '','' line @ ''\<newline>'') (columns # lines))"

definition plain_parse :: "string \<Rightarrow> row list \<times> error option" where
  "plain_parse bytes =
     (case butlast (split CHR 0x0A bytes) of
        [] \<Rightarrow> ([], None)
      | header # lines \<Rightarrow>
          (map (\<lambda>line. zip (split CHR '','' header) (split CHR '','' line)) lines, None))"

text \<open>The messages that the samples take for those of a network error.\<close>

definition network_messages :: "string \<Rightarrow> bool" where
  "network_messages m = (m = ''fetch failed'' \<or> m = ''Failed to fetch'')"

text \<open>
  Input rows: two with a local image, one with a remote image, one with a local image
  whose name begins with \<^verbatim>\<open>http\<close>, one with a remote image whose scheme is in upper case.
\<close>

definition mug_row :: row where
  "mug_row = [(''Handle'', ''mug''), (''Title'', ''Mug''), (''Image Src'', ''img/mug.jpg'')]"

definition lamp_row :: row where
  "lamp_row = [(''Handle'', ''lamp''), (''Title'', ''Lamp''), (''Image Src'', ''img/locked.jpg'')]"

definition vase_row :: row where
  "vase_row = [(''Handle'', ''vase''), (''Title'', ''Vase''),
               (''Image Src'', ''https://cdn.example.com/vase.jpg'')]"

definition poster_row :: row where
  "poster_row = [(''Handle'', ''poster''), (''Title'', ''Poster''), (''Image Src'', ''httpfile.jpg'')]"

definition banner_row :: row where
  "banner_row = [(''Handle'', ''banner''), (''Title'', ''Banner''),
                 (''Image Src'', ''HTTPS://cdn.example.com/banner.jpg'')]"

text \<open>
  Records of a prior output: one whose description is empty, two that are finished, and
  one of a file without the description column.
\<close>

definition stale_mug :: row where
  "stale_mug = [(''Handle'', ''mug''), (''Title'', ''Mug''), (''Product Description'', [])]"

definition done_mug :: row where
  "done_mug = [(''Handle'', ''mug''), (''Title'', ''Mug''), (''Product Description'', ''A sturdy mug.'')]"

definition vase_done :: row where
  "vase_done = [(''Handle'', ''vase''), (''Title'', ''Vase''), (''Product Description'', ''A tall vase.'')]"

definition bare_mug :: row where
  "bare_mug = [(''Handle'', ''mug''), (''Title'', ''Mug'')]"

text \<open>The state of a run before anything is written.\<close>

definition empty_state :: run_state where
  "empty_state = \<lparr>out = [], totalPromptTokens = 0, totalCompletionTokens = 0, calls = 0\<rparr>"

text \<open>
  An API that rejects every call; one whose response has no text; one that answers with
  a no-break space (U+00A0) only.
\<close>

definition env_always_failing :: env where
  "env_always_failing =
     \<lparr>fs = (\<lambda>path. Missing), csv = plain_parse, encode = plain_encode,
      isNetworkError = network_messages, brandPhrases = [''Crafted with Care''],
      create = (\<lambda>index n req. Inl (Error ''429 rate limit''))\<rparr>"

definition env_null_content :: env where
  "env_null_content =
     \<lparr>fs = (\<lambda>path. Missing), csv = plain_parse, encode = plain_encode,
      isNetworkError = network_messages, brandPhrases = [''Crafted with Care''],
      create = (\<lambda>index n req.
              Inr \<lparr>content = None,
                  response_usage = \<lparr>prompt_tokens = 120, completion_tokens = 0\<rparr>\<rparr>)\<rparr>"

definition env_blank_reply :: env where
  "env_blank_reply =
     \<lparr>fs = (\<lambda>path. Missing), csv = plain_parse, encode = plain_encode,
      isNetworkError = network_messages, brandPhrases = [],
      create = (\<lambda>index n req.
              Inr \<lparr>content = Some [CHR 0xC2, CHR 0xA0],
                  response_usage = \<lparr>prompt_tokens = 120, completion_tokens = 1\<rparr>\<rparr>)\<rparr>"

text \<open>
  A shop on its first run: the input file has two rows and there is no output file; one
  image can be read and the other cannot; the API answers the first row at the second
  attempt and rejects every call for any other row.
\<close>

definition input_csv_bytes :: string where
  "input_csv_bytes =
     ''Handle,Title,Image Src\<newline>mug,Mug,img/mug.jpg\<newline>lamp,Lamp,img/locked.jpg\<newline>''"

definition shop_env :: env where
  "shop_env =
     \<lparr>fs = (\<lambda>path.
              if path = ''input.csv'' then Readable input_csv_bytes
              else if path = ''img/mug.jpg'' then Readable ''Man''
              else if path = ''img/locked.jpg'' then Unreadable (Error ''EACCES: permission denied'')
              else Missing),
      csv = plain_parse, encode = plain_encode, isNetworkError = network_messages,
      brandPhrases = [''Crafted with Care'', ''Designed for Modern Living''],
      create = (\<lambda>index n req.
              if index = 0 then
                (if n < 2 then Inl (Error ''timeout'')
                 else Inr \<lparr>content = Some ''  A sturdy mug.\<newline>'',
                           response_usage = \<lparr>prompt_tokens = 120, completion_tokens = 18\<rparr>\<rparr>)
              else Inl (Error ''500 server error''))\<rparr>"

text \<open>
  The same shop with an API that answers every call with a no-break space, and the same
  shop with an output file of an earlier tool, which has no description column.
\<close>

definition blank_shop_env :: env where
  "blank_shop_env = shop_env\<lparr>create := create env_blank_reply\<rparr>"

definition bare_shop_env :: env where
  "bare_shop_env =
     shop_env\<lparr>fs := (fs shop_env)(''output.csv'' := Readable ''Handle,Title\<newline>mug,Mug\<newline>'')\<rparr>"

text \<open>
  An API that answers with the image reference of the request it was sent, and a file
  system with two readable images, the name of one beginning with \<^verbatim>\<open>http\<close>.
\<close>

fun image_urls :: "content_part \<Rightarrow> string list" where
  "image_urls (Image_url url) = [url]"
| "image_urls (Text t) = []"

definition sent_image :: "request \<Rightarrow> string" where
  "sent_image req =
     (case concat (map (\<lambda>m. concat (map image_urls (parts m))) (messages req)) of
        [] \<Rightarrow> ''text only''
      | url # _ \<Rightarrow> url)"

definition echo_env :: env where
  "echo_env =
     \<lparr>fs = (\<lambda>path. if path = ''httpfile.jpg'' \<or> path = ''img/mug.jpg'' then Readable ''Man''
                  else Missing),
      csv = plain_parse, encode = plain_encode, isNetworkError = network_messages,
      brandPhrases = [],
      create = (\<lambda>index n req.
              Inr \<lparr>content = Some (sent_image req),
                  response_usage = \<lparr>prompt_tokens = 120, completion_tokens = 18\<rparr>\<rparr>)\<rparr>"

section \<open>Auxiliary lemmas\<close>

subsection \<open>The retry loop\<close>

text \<open>
  A call that fails at every attempt is made again until an error comes that is not
  retried, or the retries are used up; the error of that attempt is the one thrown.
\<close>

lemma pRetry_fails:
  assumes "\<forall>n. input n = Inl (errs n)"
    and "\<forall>n. a \<le> n \<and> n < a + j \<longrightarrow> retried e (errs n)"
    and "j \<le> r"
    and "j = r \<or> \<not> retried e (errs (a + j))"
  shows "pRetry e input a r = (Inl (thrown (errs (a + j))), Suc j)"
  using assms
proof (induction r arbitrary: a j)
  case 0
  then show ?case by simp
next
  case (Suc r)
  have here: "input a = Inl (errs a)"
    using Suc.prems(1) by blast
  show ?case
  proof (cases "j = 0")
    case True
    with Suc.prems(4) here show ?thesis by simp
  next
    case False
    then obtain i where j: "j = Suc i"
      by (cases j) simp_all
    from Suc.prems(2) j have first: "retried e (errs a)" by simp
    have rest: "\<forall>n. Suc a \<le> n \<and> n < Suc a + i \<longrightarrow> retried e (errs n)"
      using Suc.prems(2) j by simp
    have le: "i \<le> r"
      using Suc.prems(3) j by simp
    have stop: "i = r \<or> \<not> retried e (errs (Suc a + i))"
      using Suc.prems(4) j by simp
    have "pRetry e input (Suc a) r = (Inl (thrown (errs (Suc a + i))), Suc i)"
      using Suc.prems(1) rest le stop by (rule Suc.IH)
    then show ?thesis
      by (simp add: here first j)
  qed
qed

lemma pRetry_calls_pos: "0 < snd (pRetry e input a r)"
  by (induction r arbitrary: a) (auto split: sum.splits prod.splits)

lemma generateDescription_calls_pos: "0 < snd (generateDescription e index row)"
  by (simp add: generateDescription_def pRetry_calls_pos)

subsection \<open>Rows, units and the output of a run\<close>

text \<open>
  The output of a run is the prior output followed by what the units write, in the order
  in which they finish; as a multiset it does not depend on that order.
\<close>

lemma push_all: "fold (\<lambda>row rows. rows @ [row]) xs acc = acc @ xs"
  by (induction xs arbitrary: acc) simp_all

lemma get_set_same: "get_field (set_field r k v) k = Some v"
  by (simp add: get_field_def set_field_def update_conv')

lemma get_set_other: "k' \<noteq> k \<Longrightarrow> get_field (set_field r k v) k' = get_field r k'"
  by (simp add: get_field_def set_field_def update_conv')

lemma out_task:
  "out (task e m index row st) =
     out st @ (if skips m row then []
               else [set_field row ''Product Description'' (description_or_marker e index row)])"
  by (simp add: task_def description_or_marker_def split: prod.splits sum.splits)

lemma calls_task:
  "calls (task e m index row st) =
     calls st + (if skips m row then 0 else snd (generateDescription e index row))"
  by (simp add: task_def split: prod.splits sum.splits)

lemma out_fold:
  "out (fold (\<lambda>index st. if index < length inputRows
                          then task e m index (inputRows ! index) st else st) order st) =
     out st @ concat (map (unit_rows e m inputRows) order)"
  by (induction order arbitrary: st) (simp_all add: out_task unit_rows_def)

lemma calls_fold:
  "calls (fold (\<lambda>index st. if index < length inputRows
                          then task e m index (inputRows ! index) st else st) order st) =
     calls st + sum_list (map (unit_calls e m inputRows) order)"
  by (induction order arbitrary: st) (simp_all add: calls_task unit_calls_def)

lemma out_processRows:
  "out (processRows e inputRows existingRows order) =
     existingRows @ concat (map (unit_rows e (existingMap existingRows) inputRows) order)"
  by (simp add: processRows_def out_fold push_all)

lemma calls_processRows:
  "calls (processRows e inputRows existingRows order) =
     sum_list (map (unit_calls e (existingMap existingRows) inputRows) order)"
  by (simp add: processRows_def calls_fold)

lemma mset_concat_map_perm:
  "mset xs = mset ys \<Longrightarrow> mset (concat (map f xs)) = mset (concat (map f ys))"
proof -
  assume h: "mset xs = mset ys"
  have "mset (concat (map f zs)) = (\<Sum>z\<in>#mset zs. mset (f z))" for zs
    by (induction zs) simp_all
  with h show ?thesis by simp
qed

subsection \<open>The resume index\<close>

lemma fold_map_upd:
  "fold (\<lambda>row m. m(key row \<mapsto> row)) rows m0 h =
     (if filter (\<lambda>r. key r = h) rows = [] then m0 h
      else Some (last (filter (\<lambda>r. key r = h) rows)))"
  by (induction rows arbitrary: m0) auto

lemma existingMap_last:
  "existingMap rows h =
     (if filter (\<lambda>r. get_field r ''Handle'' = h) rows = [] then None
      else Some (last (filter (\<lambda>r. get_field r ''Handle'' = h) rows)))"
  unfolding existingMap_def by (simp add: fold_map_upd)

subsection \<open>The second run skips every row\<close>

text \<open>
  After a run in which every written description is non-empty, the index built from its
  output marks every input row as done: a row skipped in the first run still finds its
  record of the prior output, since the units wrote no record with its identifier, and
  a row processed in the first run finds a record that some unit wrote.
\<close>

lemma skips_handle:
  "get_field r ''Handle'' = get_field r' ''Handle'' \<Longrightarrow> skips m r = skips m r'"
  by (simp add: skips_def)

lemma marker_nonempty:
  "(description_or_marker e index row \<noteq> []) =
     (\<forall>g. fst (generateDescription e index row) = Inr g \<longrightarrow> description g \<noteq> [])"
  by (cases "fst (generateDescription e index row)") (simp_all add: description_or_marker_def)

lemma unit_rows_handle:
  "w \<in> set (unit_rows e m inputRows j) \<Longrightarrow>
     j < length inputRows \<and> \<not> skips m (inputRows ! j) \<and>
     get_field w ''Handle'' = get_field (inputRows ! j) ''Handle'' \<and>
     get_field w ''Product Description'' = Some (description_or_marker e j (inputRows ! j))"
  by (auto simp: unit_rows_def get_set_same get_set_other split: if_splits)

lemma skips_second_run:
  assumes perm: "mset order = mset [0..<length inputRows]"
    and nonempty: "\<forall>i<length inputRows. \<not> skips (existingMap existingRows) (inputRows ! i) \<longrightarrow>
        (\<forall>g. fst (generateDescription e i (inputRows ! i)) = Inr g \<longrightarrow> description g \<noteq> [])"
    and i: "i < length inputRows"
  shows "skips (existingMap (out (processRows e inputRows existingRows order))) (inputRows ! i)"
proof -
  let ?m = "existingMap existingRows"
  let ?W = "concat (map (unit_rows e ?m inputRows) order)"
  let ?h = "get_field (inputRows ! i) ''Handle''"
  let ?sel = "\<lambda>r. get_field r ''Handle'' = ?h"
  have out: "out (processRows e inputRows existingRows order) = existingRows @ ?W"
    by (rule out_processRows)
  have W_truthy: "truthy (get_field w ''Product Description'')" if "w \<in> set ?W" for w
  proof -
    from that obtain j where "w \<in> set (unit_rows e ?m inputRows j)" by auto
    from unit_rows_handle[OF this]
    have j: "j < length inputRows" "\<not> skips ?m (inputRows ! j)"
      "get_field w ''Product Description'' = Some (description_or_marker e j (inputRows ! j))"
      by simp_all
    from nonempty j(1,2)
    have "\<forall>g. fst (generateDescription e j (inputRows ! j)) = Inr g \<longrightarrow> description g \<noteq> []"
      by blast
    then have "description_or_marker e j (inputRows ! j) \<noteq> []"
      by (simp only: marker_nonempty)
    with j(3) show ?thesis by simp
  qed
  show ?thesis
  proof (cases "skips ?m (inputRows ! i)")
    case True
    have "filter ?sel ?W = []"
    proof (rule ccontr)
      assume "filter ?sel ?W \<noteq> []"
      then obtain w where w: "w \<in> set ?W" "?sel w"
        unfolding filter_empty_conv by blast
      then obtain j where "w \<in> set (unit_rows e ?m inputRows j)" by auto
      from unit_rows_handle[OF this] w(2) have "\<not> skips ?m (inputRows ! j)"
        and "get_field (inputRows ! j) ''Handle'' = ?h" by simp_all
      with True skips_handle[of "inputRows ! j" "inputRows ! i" ?m] show False by simp
    qed
    moreover from True have "filter ?sel existingRows \<noteq> []"
      by (auto simp: skips_def existingMap_last split: if_splits)
    ultimately have "existingMap (existingRows @ ?W) ?h = ?m ?h"
      by (simp add: existingMap_last)
    with True show ?thesis by (simp add: out skips_def)
  next
    case False
    from perm have "set order = set [0..<length inputRows]" by (rule mset_eq_setD)
    with i have "i \<in> set order" by simp
    with False i have "set_field (inputRows ! i) ''Product Description''
        (description_or_marker e i (inputRows ! i)) \<in> set ?W"
      by (auto simp: unit_rows_def)
    moreover have "?sel (set_field (inputRows ! i) ''Product Description''
        (description_or_marker e i (inputRows ! i)))"
      by (simp add: get_set_other)
    ultimately have ne: "filter ?sel ?W \<noteq> []"
      unfolding filter_empty_conv by blast
    then have "last (filter ?sel ?W) \<in> set (filter ?sel ?W)"
      by (rule last_in_set)
    then have "last (filter ?sel ?W) \<in> set ?W"
      by simp
    then have "truthy (get_field (last (filter ?sel ?W)) ''Product Description'')"
      by (rule W_truthy)
    with ne show ?thesis
      by (simp add: out skips_def existingMap_last)
  qed
qed

subsection \<open>The file that the next run loads\<close>

text \<open>
  The rows read back from the written file keep the identifier of every row and the
  truth of its description when the file has both columns, so the index built from them
  skips the same rows; writing them again gives the same file.
\<close>

lemma get_field_zip_cells:
  "get_field (zip columns (cells columns row)) k =
     (if k \<in> set columns
      then Some (case get_field row k of None \<Rightarrow> [] | Some v \<Rightarrow> v) else None)"
  by (simp add: get_field_def cells_def map_of_zip_map)

lemma reload_Cons:
  "reload (first # rows) =
     map (\<lambda>row. zip (map fst first) (cells (map fst first) row)) (first # rows)"
  by (simp add: reload_def)

lemma has_field_key: "get_field row k \<noteq> None \<Longrightarrow> k \<in> set (map fst row)"
  by (auto simp: get_field_def map_of_eq_None_iff)

lemma existingMap_map:
  assumes "\<forall>r\<in>set rows. get_field (f r) ''Handle'' = get_field r ''Handle''"
  shows "existingMap (map f rows) h = map_option f (existingMap rows h)"
proof -
  have "filter (\<lambda>r. get_field r ''Handle'' = h) (map f rows) =
        map f (filter (\<lambda>r. get_field (f r) ''Handle'' = h) rows)"
    by (simp add: filter_map comp_def)
  also have "filter (\<lambda>r. get_field (f r) ''Handle'' = h) rows =
             filter (\<lambda>r. get_field r ''Handle'' = h) rows"
    using assms by (intro filter_cong) simp_all
  finally show ?thesis
    by (simp add: existingMap_last last_map)
qed

lemma skips_map:
  assumes h: "\<forall>r\<in>set rows. get_field (f r) ''Handle'' = get_field r ''Handle''"
    and d: "\<forall>r\<in>set rows. truthy (get_field (f r) ''Product Description'') =
                             truthy (get_field r ''Product Description'')"
  shows "skips (existingMap (map f rows)) row = skips (existingMap rows) row"
proof (cases "existingMap rows (get_field row ''Handle'')")
  case None
  then show ?thesis by (simp add: skips_def existingMap_map[OF h])
next
  case (Some r)
  then have "r \<in> set rows"
    by (auto simp: existingMap_last split: if_splits dest: last_in_set[THEN subsetD[OF filter_is_subset]])
  with d Some show ?thesis by (simp add: skips_def existingMap_map[OF h])
qed

lemma skips_reload:
  assumes rows: "rows = first # rest"
    and handle_col: "get_field first ''Handle'' \<noteq> None"
    and description_col: "get_field first ''Product Description'' \<noteq> None"
    and handles: "\<forall>r\<in>set rows. get_field r ''Handle'' \<noteq> None"
  shows "skips (existingMap (reload rows)) row = skips (existingMap rows) row"
proof -
  let ?f = "\<lambda>r. zip (map fst first) (cells (map fst first) r)"
  have hk: "''Handle'' \<in> set (map fst first)" using handle_col by (rule has_field_key)
  have dk: "''Product Description'' \<in> set (map fst first)" using description_col by (rule has_field_key)
  have 1: "\<forall>r\<in>set rows. get_field (?f r) ''Handle'' = get_field r ''Handle''"
    using handles hk by (auto simp: get_field_zip_cells)
  have 2: "\<forall>r\<in>set rows. truthy (get_field (?f r) ''Product Description'') =
                             truthy (get_field r ''Product Description'')"
    using dk by (auto simp: get_field_zip_cells split: option.splits)
  have "reload rows = map ?f rows" by (simp add: rows reload_Cons)
  with skips_map[of rows ?f, OF 1 2] show ?thesis by simp
qed

lemma cells_cong:
  "\<forall>k\<in>set columns. get_field r k = Some (case get_field row k of None \<Rightarrow> [] | Some v \<Rightarrow> v)
     \<Longrightarrow> cells columns r = cells columns row"
  by (simp add: cells_def)

lemma cells_zip_cells: "cells columns (zip columns (cells columns row)) = cells columns row"
  by (rule cells_cong) (simp add: get_field_zip_cells)

lemma writeCsv_reload: "writeCsv e (reload rows) = writeCsv e rows"
proof (cases rows)
  case Nil
  then show ?thesis by (simp add: reload_def)
next
  case (Cons first rest)
  have c: "map fst (zip (map fst first) (cells (map fst first) first)) = map fst first"
    by (simp add: cells_def)
  show ?thesis
    by (simp add: Cons reload_Cons writeCsv_def c cells_zip_cells comp_def)
qed

lemma reload_reload: "reload (reload rows) = reload rows"
proof (cases rows)
  case Nil
  then show ?thesis by (simp add: reload_def)
next
  case (Cons first rest)
  have c: "map fst (zip (map fst first) (cells (map fst first) first)) = map fst first"
    by (simp add: cells_def)
  show ?thesis
    by (simp add: Cons reload_Cons c cells_zip_cells comp_def)
qed

lemma all_skipped:
  assumes "\<forall>i<length inputRows. skips m (inputRows ! i)"
  shows "fold (\<lambda>index st. if index < length inputRows
                          then task e m index (inputRows ! index) st else st) order st = st"
  using assms by (induction order arbitrary: st) (simp_all add: task_def)

lemma processRows_all_skipped:
  assumes "\<forall>i<length inputRows. skips (existingMap existingRows) (inputRows ! i)"
  shows "processRows e inputRows existingRows order =
           \<lparr>out = existingRows, totalPromptTokens = 0, totalCompletionTokens = 0, calls = 0\<rparr>"
  using all_skipped[OF assms] by (simp add: processRows_def push_all)

lemma second_run_skips_reloaded:
  assumes perm: "mset order = mset [0..<length inputRows]"
    and nonempty: "\<forall>i<length inputRows. \<not> skips (existingMap existingRows) (inputRows ! i) \<longrightarrow>
        (\<forall>g. fst (generateDescription e i (inputRows ! i)) = Inr g \<longrightarrow> description g \<noteq> [])"
    and handles: "\<forall>row\<in>set inputRows \<union> set existingRows. get_field row ''Handle'' \<noteq> None"
    and header: "existingRows \<noteq> [] \<longrightarrow>
        get_field (hd existingRows) ''Product Description'' \<noteq> None"
    and i: "i < length inputRows"
  shows "skips (existingMap (reload (out (processRows e inputRows existingRows order))))
           (inputRows ! i)"
proof -
  let ?m = "existingMap existingRows"
  let ?W = "concat (map (unit_rows e ?m inputRows) order)"
  let ?O = "out (processRows e inputRows existingRows order)"
  have out: "?O = existingRows @ ?W"
    by (rule out_processRows)
  have W: "get_field w ''Handle'' \<noteq> None \<and> get_field w ''Product Description'' \<noteq> None"
    if "w \<in> set ?W" for w
  proof -
    from that obtain j where "w \<in> set (unit_rows e ?m inputRows j)" by auto
    from unit_rows_handle[OF this]
    have j: "j < length inputRows"
      "get_field w ''Handle'' = get_field (inputRows ! j) ''Handle''"
      "get_field w ''Product Description'' = Some (description_or_marker e j (inputRows ! j))"
      by simp_all
    from j(1) have "inputRows ! j \<in> set inputRows" by (rule nth_mem)
    with handles have "get_field (inputRows ! j) ''Handle'' \<noteq> None" by blast
    with j(2,3) show ?thesis by simp
  qed
  have sk: "skips (existingMap ?O) (inputRows ! i)"
    using perm nonempty i by (rule skips_second_run)
  have "?O \<noteq> []"
  proof
    assume "?O = []"
    then have "existingMap ?O (get_field (inputRows ! i) ''Handle'') = None"
      by (simp add: existingMap_def)
    with sk show False by (simp add: skips_def)
  qed
  then obtain first rest where O: "?O = first # rest"
    by (cases ?O) simp_all
  have first: "get_field first ''Handle'' \<noteq> None \<and> get_field first ''Product Description'' \<noteq> None"
  proof (cases "existingRows = []")
    case True
    with out O have "first \<in> set ?W" by (metis list.set_intros(1) append_Nil)
    then show ?thesis by (rule W)
  next
    case False
    with out O have "first = hd existingRows" by (metis hd_append2 list.sel(1))
    moreover from False have "hd existingRows \<in> set existingRows" by simp
    ultimately show ?thesis using handles header False by blast
  qed
  have all: "\<forall>r\<in>set ?O. get_field r ''Handle'' \<noteq> None"
    using handles W by (auto simp: out)
  from skips_reload[OF O _ _ all, of "inputRows ! i"] first sk show ?thesis by simp
qed

lemma loadCsv_cong:
  "fs e' file = fs e file \<Longrightarrow> csv e' = csv e \<Longrightarrow> loadCsv e' file = loadCsv e file"
  by (simp add: loadCsv_def existsSync_def readFileSync_def split: fs_entry.splits)

lemma writeCsv_cong: "encode e' = encode e \<Longrightarrow> writeCsv e' rows = writeCsv e rows"
  by (simp add: writeCsv_def split: list.splits)

subsection \<open>The sample runs\<close>

lemma trim_mug: "trim ''  A sturdy mug.\<newline>'' = ''A sturdy mug.''"
  by (simp add: trim_def white_space_def startsWith_def endsWith_def)

lemma trim_nbsp: "trim [CHR 0xC2, CHR 0xA0] = []"
  by (simp add: trim_def white_space_def startsWith_def endsWith_def)

lemma gen_mug: "generateDescription shop_env 0 mug_row =
    (Inr \<lparr>description = ''A sturdy mug.'', usage = \<lparr>prompt_tokens = 120, completion_tokens = 18\<rparr>\<rparr>, 2)"
  by (simp add: generateDescription_def callOpenAI_def shop_env_def eval_nat_numeral trim_mug
        retried_def)

lemma gen_lamp: "generateDescription shop_env (Suc 0) lamp_row = (Inl (Error ''500 server error''), 6)"
  by (simp add: generateDescription_def callOpenAI_def shop_env_def eval_nat_numeral retried_def)

lemma gen_blank: "generateDescription env_blank_reply index row =
    (Inr \<lparr>description = [], usage = \<lparr>prompt_tokens = 120, completion_tokens = 1\<rparr>\<rparr>, 1)"
  by (simp add: generateDescription_def callOpenAI_def env_blank_reply_def eval_nat_numeral
        trim_nbsp)

lemma perm_10: "mset [1, 0] = mset [0..<length [mug_row, lamp_row]]"
  by (simp add: upt_rec)

subsection \<open>Two runs of the sample shops\<close>

lemma gen_blank_reply:
  "create e = create env_blank_reply \<Longrightarrow>
   generateDescription e index row =
     (Inr \<lparr>description = [], usage = \<lparr>prompt_tokens = 120, completion_tokens = 1\<rparr>\<rparr>, 1)"
  by (simp add: generateDescription_def callOpenAI_def env_blank_reply_def eval_nat_numeral
        trim_nbsp)

lemma gen_shop_first:
  "create e = create shop_env \<Longrightarrow>
   generateDescription e 0 row =
     (Inr \<lparr>description = ''A sturdy mug.'',
          usage = \<lparr>prompt_tokens = 120, completion_tokens = 18\<rparr>\<rparr>, 2)"
  by (simp add: generateDescription_def callOpenAI_def shop_env_def eval_nat_numeral trim_mug
        retried_def)

lemma gen_shop_other:
  "create e = create shop_env \<Longrightarrow> 0 < index \<Longrightarrow>
   generateDescription e index row = (Inl (Error ''500 server error''), 6)"
  by (simp add: generateDescription_def callOpenAI_def shop_env_def eval_nat_numeral retried_def)

lemma run_twice_calls:
  assumes files: "inputFile \<noteq> outputFile"
    and input: "loadCsv e inputFile = Inr inputRows"
    and prior: "loadCsv e outputFile = Inr existingRows"
    and written: "out (processRows e inputRows existingRows order) = rows1"
    and readback: "csv e (writeCsv e rows1) = (rows2, None)"
  shows "map_sum id (calls \<circ> fst \<circ> snd)
           (run_twice e create' inputFile outputFile modelName order order') =
         Inr (calls (processRows
                (e\<lparr>fs := (fs e)(outputFile := Readable (writeCsv e rows1)), create := create'\<rparr>)
                inputRows rows2 order'))"
proof -
  let ?fs1 = "(fs e)(outputFile := Readable (writeCsv e rows1))"
  let ?e2 = "e\<lparr>fs := ?fs1, create := create'\<rparr>"
  have "loadCsv ?e2 inputFile = loadCsv e inputFile"
    using files by (intro loadCsv_cong) simp_all
  with input have in2: "loadCsv ?e2 inputFile = Inr inputRows"
    by simp
  have out2: "loadCsv ?e2 outputFile = Inr rows2"
    using readback by (simp add: loadCsv_def existsSync_def readFileSync_def push_all)
  have second: "map_sum id (calls \<circ> fst \<circ> snd)
      (processCSV ?e2 inputFile outputFile modelName order') =
      Inr (calls (processRows ?e2 inputRows rows2 order'))"
    by (simp add: processCSV_def in2 out2 Let_def)
  have first: "processCSV e inputFile outputFile modelName order =
      Inr (?fs1, processRows e inputRows existingRows order,
           estimate modelName (totalPromptTokens (processRows e inputRows existingRows order))
             (totalCompletionTokens (processRows e inputRows existingRows order)))"
    by (simp add: processCSV_def input prior Let_def written)
  show ?thesis
    by (simp only: run_twice_def first sum.case prod.case second)
qed

lemma load_input: "loadCsv shop_env ''input.csv'' = Inr [mug_row, lamp_row]"
  by (simp add: loadCsv_def existsSync_def readFileSync_def shop_env_def plain_parse_def
        input_csv_bytes_def mug_row_def lamp_row_def)

lemma load_output: "loadCsv shop_env ''output.csv'' = Inr []"
  by (simp add: loadCsv_def existsSync_def shop_env_def)

lemma run1: "out (processRows shop_env [mug_row, lamp_row] [] [1, 0]) =
   [[(''Handle'', ''lamp''), (''Title'', ''Lamp''), (''Image Src'', ''img/locked.jpg''),
     (''Product Description'', ''ERROR: 500 server error'')],
    [(''Handle'', ''mug''), (''Title'', ''Mug''), (''Image Src'', ''img/mug.jpg''),
     (''Product Description'', ''A sturdy mug.'')]]"
  by (simp add: processRows_def task_def skips_def existingMap_def gen_mug gen_lamp
        set_field_def mug_row_def[symmetric] lamp_row_def[symmetric])
    (simp add: mug_row_def lamp_row_def)

lemma readback1:
  "csv shop_env (writeCsv shop_env (out (processRows shop_env [mug_row, lamp_row] [] [1, 0]))) =
     (reload (out (processRows shop_env [mug_row, lamp_row] [] [1, 0])), None)"
  unfolding run1
  by (simp add: shop_env_def writeCsv_def plain_encode_def plain_parse_def reload_def
        cells_def get_field_def)

lemma reload1: "reload (out (processRows shop_env [mug_row, lamp_row] [] [1, 0])) =
   [[(''Handle'', ''lamp''), (''Title'', ''Lamp''), (''Image Src'', ''img/locked.jpg''),
     (''Product Description'', ''ERROR: 500 server error'')],
    [(''Handle'', ''mug''), (''Title'', ''Mug''), (''Image Src'', ''img/mug.jpg''),
     (''Product Description'', ''A sturdy mug.'')]]"
  unfolding run1
  by (simp add: reload_def cells_def get_field_def)

lemma load_input_blank: "loadCsv blank_shop_env ''input.csv'' = Inr [mug_row, lamp_row]"
  using load_input loadCsv_cong[of blank_shop_env "''input.csv''" shop_env]
  by (simp add: blank_shop_env_def)

lemma load_output_blank: "loadCsv blank_shop_env ''output.csv'' = Inr []"
  using load_output loadCsv_cong[of blank_shop_env "''output.csv''" shop_env]
  by (simp add: blank_shop_env_def)

lemma load_input_bare: "loadCsv bare_shop_env ''input.csv'' = Inr [mug_row, lamp_row]"
  using load_input loadCsv_cong[of bare_shop_env "''input.csv''" shop_env]
  by (simp add: bare_shop_env_def)

lemma load_output_bare:
  "loadCsv bare_shop_env ''output.csv'' = Inr [[(''Handle'', ''mug''), (''Title'', ''Mug'')]]"
  by (simp add: loadCsv_def existsSync_def readFileSync_def bare_shop_env_def shop_env_def
        plain_parse_def)

lemma written_blank:
  "out (processRows blank_shop_env [mug_row, lamp_row] [] [0, 1]) =
     [[(''Handle'', ''mug''), (''Title'', ''Mug''), (''Image Src'', ''img/mug.jpg''),
       (''Product Description'', [])],
      [(''Handle'', ''lamp''), (''Title'', ''Lamp''), (''Image Src'', ''img/locked.jpg''),
       (''Product Description'', [])]]"
  by (simp add: out_processRows unit_rows_def description_or_marker_def skips_def
        existingMap_def gen_blank_reply blank_shop_env_def set_field_def mug_row_def
        lamp_row_def)

lemma readback_blank:
  "csv blank_shop_env (writeCsv blank_shop_env
     [[(''Handle'', ''mug''), (''Title'', ''Mug''), (''Image Src'', ''img/mug.jpg''),
       (''Product Description'', [])],
      [(''Handle'', ''lamp''), (''Title'', ''Lamp''), (''Image Src'', ''img/locked.jpg''),
       (''Product Description'', [])]]) =
   ([[(''Handle'', ''mug''), (''Title'', ''Mug''), (''Image Src'', ''img/mug.jpg''),
       (''Product Description'', [])],
      [(''Handle'', ''lamp''), (''Title'', ''Lamp''), (''Image Src'', ''img/locked.jpg''),
       (''Product Description'', [])]], None)"
  by (simp add: blank_shop_env_def shop_env_def writeCsv_def plain_encode_def plain_parse_def
        cells_def get_field_def)

lemma written_bare:
  "out (processRows bare_shop_env [mug_row, lamp_row]
          [[(''Handle'', ''mug''), (''Title'', ''Mug'')]] [0, 1]) =
     [[(''Handle'', ''mug''), (''Title'', ''Mug'')],
      [(''Handle'', ''mug''), (''Title'', ''Mug''), (''Image Src'', ''img/mug.jpg''),
       (''Product Description'', ''A sturdy mug.'')],
      [(''Handle'', ''lamp''), (''Title'', ''Lamp''), (''Image Src'', ''img/locked.jpg''),
       (''Product Description'', ''ERROR: 500 server error'')]]"
  by (simp add: out_processRows unit_rows_def description_or_marker_def skips_def
        existingMap_def gen_shop_first gen_shop_other bare_shop_env_def set_field_def
        get_field_def mug_row_def lamp_row_def)

lemma readback_bare:
  "csv bare_shop_env (writeCsv bare_shop_env
     [[(''Handle'', ''mug''), (''Title'', ''Mug'')],
      [(''Handle'', ''mug''), (''Title'', ''Mug''), (''Image Src'', ''img/mug.jpg''),
       (''Product Description'', ''A sturdy mug.'')],
      [(''Handle'', ''lamp''), (''Title'', ''Lamp''), (''Image Src'', ''img/locked.jpg''),
       (''Product Description'', ''ERROR: 500 server error'')]]) =
   ([[(''Handle'', ''mug''), (''Title'', ''Mug'')],
     [(''Handle'', ''mug''), (''Title'', ''Mug'')],
     [(''Handle'', ''lamp''), (''Title'', ''Lamp'')]], None)"
  by (simp add: bare_shop_env_def shop_env_def writeCsv_def plain_encode_def plain_parse_def
        cells_def get_field_def)

subsection \<open>The written rows, by input index\<close>



subsection \<open>Rounding to binary64\<close>

text \<open>
  \<open>binade\<close> brackets its argument between two powers of two, so rounding changes a
  number by at most the fraction \<open>2\<^sup>-\<^sup>5\<^sup>3\<close> of it; the five roundings on the way to the
  total cost add up to less than \<open>6 / 2\<^sup>5\<^sup>3\<close>.
\<close>

lemma bitlen_lower: "0 < a \<Longrightarrow> (2::rat) powi (bitlen a - 1) \<le> of_int a"
proof -
  assume a: "0 < a"
  then have b: "0 < bitlen a"
    using bitlen_eq_zero_iff[of a] bitlen_nonneg[of a] by linarith
  from bitlen_bounds[OF a] have "(2::int) ^ nat (bitlen a - 1) \<le> a" by simp
  then have "of_int ((2::int) ^ nat (bitlen a - 1)) \<le> (of_int a :: rat)"
    by (simp only: of_int_le_iff)
  moreover from b have "(2::rat) powi (bitlen a - 1) = 2 ^ nat (bitlen a - 1)"
    by (simp add: power_int_def)
  ultimately show ?thesis by simp
qed

lemma bitlen_upper: "0 < a \<Longrightarrow> of_int a < (2::rat) powi (bitlen a)"
proof -
  assume a: "0 < a"
  then have b: "0 < bitlen a"
    using bitlen_eq_zero_iff[of a] bitlen_nonneg[of a] by linarith
  from bitlen_bounds[OF a] have "a < (2::int) ^ nat (bitlen a)" by simp
  then have "(of_int a :: rat) < of_int ((2::int) ^ nat (bitlen a))"
    by (simp only: of_int_less_iff)
  moreover from b have "(2::rat) powi (bitlen a) = 2 ^ nat (bitlen a)"
    by (simp add: power_int_def)
  ultimately show ?thesis by simp
qed

lemma binade_bracket:
  assumes "0 < x"
  shows "2 powi (binade x) \<le> x \<and> x < 2 powi (binade x + 1)"
proof -
  obtain a b where q: "quotient_of x = (a, b)" by (cases "quotient_of x")
  then have b: "0 < b" by (rule quotient_of_denom_pos)
  from q have x: "x = of_int a / of_int b" by (rule quotient_of_div)
  with assms b have a: "0 < a" by (simp add: zero_less_divide_iff)
  let ?d = "bitlen a - bitlen b"
  have lo: "2 powi (?d - 1) \<le> x"
  proof -
    have "(2::rat) powi (?d - 1) = 2 powi (bitlen a - 1) / 2 powi (bitlen b)"
      by (simp add: power_int_diff)
    also have "\<dots> \<le> of_int a / 2 powi (bitlen b)"
      using bitlen_lower[OF a] by (simp add: divide_right_mono)
    also have "\<dots> \<le> of_int a / of_int b"
      using bitlen_upper[OF b] a b by (simp add: frac_le)
    finally show ?thesis by (simp add: x)
  qed
  have hi: "x < 2 powi (?d + 1)"
  proof -
    have "x = of_int a / of_int b" by (rule x)
    also have "\<dots> < 2 powi (bitlen a) / of_int b"
      using bitlen_upper[OF a] b by (simp add: divide_strict_right_mono)
    also have "\<dots> \<le> 2 powi (bitlen a) / 2 powi (bitlen b - 1)"
      using bitlen_lower[OF b] b by (simp add: frac_le)
    also have "\<dots> = 2 powi (?d + 1)"
      by (simp add: power_int_diff power_int_add)
    finally show ?thesis .
  qed
  show ?thesis
  proof (cases "2 powi ?d \<le> x")
    case True
    with hi show ?thesis by (simp add: binade_def q)
  next
    case False
    with lo show ?thesis by (simp add: binade_def q)
  qed
qed

lemma round_even_err: "\<bar>of_int (round_even q) - q\<bar> \<le> 1 / 2"
proof -
  have "of_int \<lfloor>q\<rfloor> \<le> q" "q < of_int \<lfloor>q\<rfloor> + 1"
    by linarith+
  then show ?thesis
    by (auto simp: round_even_def Let_def abs_le_iff)
qed

lemma fl_rel:
  assumes "0 < x"
  shows "(1 - 1 / 2 ^ 53) * x \<le> fl x \<and> fl x \<le> (1 + 1 / 2 ^ 53) * x"
proof -
  let ?e = "binade x"
  let ?y = "x * 2 powi (52 - ?e)"
  let ?n = "of_int (round_even ?y) :: rat"
  have s: "(0::rat) < 2 powi (?e - 52)" by simp
  have yx: "?y * 2 powi (?e - 52) = x"
    by (simp add: power_int_diff)
  have f: "fl x = ?n * 2 powi (?e - 52)"
    using assms by (simp add: fl_def)
  have "\<bar>fl x - x\<bar> = \<bar>?n - ?y\<bar> * 2 powi (?e - 52)"
  proof -
    have "fl x - x = (?n - ?y) * 2 powi (?e - 52)"
      using yx by (simp add: f algebra_simps)
    then show ?thesis by (simp add: abs_mult)
  qed
  also have "\<dots> \<le> (1 / 2) * 2 powi (?e - 52)"
    using round_even_err[of ?y] by (simp add: mult_right_mono)
  also have "\<dots> = 2 powi ?e / 2 ^ 53"
    by (simp add: power_int_diff)
  also have "\<dots> \<le> x / 2 ^ 53"
    using binade_bracket[OF assms] by (simp add: divide_right_mono)
  finally have "\<bar>fl x - x\<bar> \<le> x / 2 ^ 53" .
  then have "x - x / 2 ^ 53 \<le> fl x \<and> fl x \<le> x + x / 2 ^ 53"
    by linarith
  moreover have "(1 - 1 / 2 ^ 53) * x = x - x / 2 ^ 53" "(1 + 1 / 2 ^ 53) * x = x + x / 2 ^ 53"
    by (simp_all only: left_diff_distrib distrib_right mult_1 times_divide_eq_left)
  ultimately show ?thesis by (simp only:)
qed

lemma fl_rel0:
  assumes "0 \<le> x"
  shows "(1 - 1 / 2 ^ 53) * x \<le> fl x \<and> fl x \<le> (1 + 1 / 2 ^ 53) * x"
proof (cases "x = 0")
  case True
  then show ?thesis by (simp add: fl_def)
next
  case False
  with assms have "0 < x" by simp
  then show ?thesis by (rule fl_rel)
qed

lemma close_to_refl: "close_to 0 y y"
  by (simp add: close_to_def)

lemma close_to_nonneg: "0 \<le> y \<Longrightarrow> close_to k x y \<Longrightarrow> 0 \<le> x"
proof -
  assume y: "0 \<le> y" and c: "close_to k x y"
  have "(0::rat) \<le> (1 - 1 / 2 ^ 53) ^ k" by simp
  then have "0 \<le> (1 - 1 / 2 ^ 53) ^ k * y" using y by (rule mult_nonneg_nonneg)
  with c show ?thesis by (simp add: close_to_def)
qed

lemma close_to_fl:
  assumes y: "0 \<le> y" and c: "close_to k x y"
  shows "close_to (Suc k) (fl x) y"
proof -
  from y c have x: "0 \<le> x" by (rule close_to_nonneg)
  from fl_rel0[OF x] have lo: "(1 - 1 / 2 ^ 53) * x \<le> fl x" and hi: "fl x \<le> (1 + 1 / 2 ^ 53) * x"
    by simp_all
  from c have cl: "(1 - 1 / 2 ^ 53) ^ k * y \<le> x" and ch: "x \<le> (1 + 1 / 2 ^ 53) ^ k * y"
    by (simp_all add: close_to_def)
  have "(1 - 1 / 2 ^ 53) * ((1 - 1 / 2 ^ 53) ^ k * y) \<le> (1 - 1 / 2 ^ 53) * x"
    using cl by (rule mult_left_mono) simp
  with lo have 1: "(1 - 1 / 2 ^ 53) ^ Suc k * y \<le> fl x"
    by (simp only: power_Suc mult.assoc)
  have "(1 + 1 / 2 ^ 53) * x \<le> (1 + 1 / 2 ^ 53) * ((1 + 1 / 2 ^ 53) ^ k * y)"
    using ch by (rule mult_left_mono) simp
  with hi have 2: "fl x \<le> (1 + 1 / 2 ^ 53) ^ Suc k * y"
    by (simp only: power_Suc mult.assoc)
  from 1 2 show ?thesis by (simp only: close_to_def)
qed

lemma close_to_mult:
  assumes y: "0 \<le> y" and y': "0 \<le> y'" and c: "close_to j x y" and c': "close_to k x' y'"
  shows "close_to (j + k) (x * x') (y * y')"
proof -
  from y c have x: "0 \<le> x" by (rule close_to_nonneg)
  from y' c' have x': "0 \<le> x'" by (rule close_to_nonneg)
  from c have cl: "(1 - 1 / 2 ^ 53) ^ j * y \<le> x" and ch: "x \<le> (1 + 1 / 2 ^ 53) ^ j * y"
    by (simp_all add: close_to_def)
  from c' have cl': "(1 - 1 / 2 ^ 53) ^ k * y' \<le> x'" and ch': "x' \<le> (1 + 1 / 2 ^ 53) ^ k * y'"
    by (simp_all add: close_to_def)
  have "((1 - 1 / 2 ^ 53) ^ j * y) * ((1 - 1 / 2 ^ 53) ^ k * y') \<le> x * x'"
    using cl cl' by (rule mult_mono) (simp_all add: x y')
  then have 1: "(1 - 1 / 2 ^ 53) ^ (j + k) * (y * y') \<le> x * x'"
    by (simp only: power_add mult_ac)
  have "x * x' \<le> ((1 + 1 / 2 ^ 53) ^ j * y) * ((1 + 1 / 2 ^ 53) ^ k * y')"
    using ch ch' by (rule mult_mono) (simp_all add: x' y)
  then have 2: "x * x' \<le> (1 + 1 / 2 ^ 53) ^ (j + k) * (y * y')"
    by (simp only: power_add mult_ac)
  from 1 2 show ?thesis by (simp only: close_to_def)
qed

lemma close_to_divide:
  assumes c: "0 < c" and k: "close_to k x y"
  shows "close_to k (x / c) (y / c)"
proof -
  from c have c0: "0 \<le> c" by simp
  from k have cl: "(1 - 1 / 2 ^ 53) ^ k * y \<le> x" and ch: "x \<le> (1 + 1 / 2 ^ 53) ^ k * y"
    by (simp_all add: close_to_def)
  from cl c0 have "(1 - 1 / 2 ^ 53) ^ k * y / c \<le> x / c" by (rule divide_right_mono)
  then have 1: "(1 - 1 / 2 ^ 53) ^ k * (y / c) \<le> x / c"
    by (simp only: times_divide_eq_right)
  from ch c0 have "x / c \<le> (1 + 1 / 2 ^ 53) ^ k * y / c" by (rule divide_right_mono)
  then have 2: "x / c \<le> (1 + 1 / 2 ^ 53) ^ k * (y / c)"
    by (simp only: times_divide_eq_right)
  from 1 2 show ?thesis by (simp only: close_to_def)
qed

lemma close_to_add: "close_to k x y \<Longrightarrow> close_to k x' y' \<Longrightarrow> close_to k (x + x') (y + y')"
  by (simp add: close_to_def distrib_left add_mono)

lemma close_to_bound:
  assumes y: "0 \<le> y" and c: "close_to 5 x y"
  shows "\<bar>x - y\<bar> \<le> 6 / 2 ^ 53 * y"
proof -
  have l: "1 - 6 / 2 ^ 53 \<le> (1 - 1 / 2 ^ 53 :: rat) ^ 5" by code_simp
  have h: "(1 + 1 / 2 ^ 53 :: rat) ^ 5 \<le> 1 + 6 / 2 ^ 53" by code_simp
  from l y have "(1 - 6 / 2 ^ 53) * y \<le> (1 - 1 / 2 ^ 53) ^ 5 * y" by (rule mult_right_mono)
  with c have 1: "(1 - 6 / 2 ^ 53) * y \<le> x" by (simp add: close_to_def)
  from h y have "(1 + 1 / 2 ^ 53) ^ 5 * y \<le> (1 + 6 / 2 ^ 53) * y" by (rule mult_right_mono)
  with c have 2: "x \<le> (1 + 6 / 2 ^ 53) * y" by (simp add: close_to_def)
  define d where "d = 6 / 2 ^ 53 * y"
  have "(1 - 6 / 2 ^ 53) * y = y - d" "(1 + 6 / 2 ^ 53) * y = y + d"
    by (simp_all only: d_def left_diff_distrib distrib_right mult_1)
  with 1 2 have "y - d \<le> x" "x \<le> y + d" by (simp_all only:)
  then have "\<bar>x - y\<bar> \<le> d" by linarith
  then show ?thesis by (simp only: d_def)
qed

lemma pricing_nonneg:
  "MODEL_PRICING modelName = Some p \<Longrightarrow> 0 \<le> input_rate p \<and> 0 \<le> output_rate p"
  by (auto simp: MODEL_PRICING_def split: if_splits)

lemma cost_close:
  assumes r: "0 \<le> rate"
  shows "close_to 4 (fl (fl (fl (of_nat t) / 1000000) * fl rate)) (of_nat t / 1000000 * rate)"
proof -
  have t: "(0::rat) \<le> of_nat t" by simp
  have "close_to 1 (fl (of_nat t)) (of_nat t)"
    using close_to_fl[OF t close_to_refl] by simp
  then have "close_to 1 (fl (of_nat t) / 1000000) (of_nat t / 1000000)"
    by (rule close_to_divide[rotated]) simp
  then have a: "close_to 2 (fl (fl (of_nat t) / 1000000)) (of_nat t / 1000000)"
    using close_to_fl[of "of_nat t / 1000000" 1] by (simp add: numeral_2_eq_2)
  have b: "close_to 1 (fl rate) rate"
    using close_to_fl[OF r close_to_refl] by simp
  have "close_to (2 + 1) (fl (fl (of_nat t) / 1000000) * fl rate) (of_nat t / 1000000 * rate)"
    using _ r a b by (rule close_to_mult) simp
  then have "close_to (Suc (2 + 1)) (fl (fl (fl (of_nat t) / 1000000) * fl rate))
      (of_nat t / 1000000 * rate)"
    using r by (intro close_to_fl) simp_all
  then show ?thesis by (simp add: eval_nat_numeral)
qed

lemma estimate_close:
  assumes "MODEL_PRICING modelName = Some p"
  shows "\<exists>c. estimate modelName promptTotal completionTotal = Inr c \<and>
           \<bar>totalCost c - formula_cost p promptTotal completionTotal\<bar>
             \<le> 6 / 2 ^ 53 * formula_cost p promptTotal completionTotal"
proof -
  from pricing_nonneg[OF assms] have i: "0 \<le> input_rate p" and out: "0 \<le> output_rate p"
    by simp_all
  let ?ic = "of_nat promptTotal / 1000000 * input_rate p"
  let ?oc = "of_nat completionTotal / 1000000 * output_rate p"
  let ?ic64 = "fl (fl (fl (of_nat promptTotal) / 1000000) * fl (input_rate p))"
  let ?oc64 = "fl (fl (fl (of_nat completionTotal) / 1000000) * fl (output_rate p))"
  have nn: "0 \<le> ?ic + ?oc" using i out by simp
  have "close_to 4 (?ic64 + ?oc64) (?ic + ?oc)"
    using cost_close[OF i] cost_close[OF out] by (rule close_to_add)
  with nn have "close_to (Suc 4) (fl (?ic64 + ?oc64)) (?ic + ?oc)"
    by (rule close_to_fl)
  then have "close_to 5 (fl (?ic64 + ?oc64)) (?ic + ?oc)"
    by (simp add: eval_nat_numeral)
  with nn have "\<bar>fl (?ic64 + ?oc64) - (?ic + ?oc)\<bar> \<le> 6 / 2 ^ 53 * (?ic + ?oc)"
    by (rule close_to_bound)
  then show ?thesis
    by (simp add: estimate_def formula_cost_def assms Let_def)
qed

lemma fl_inputCost:
  "fl (fl (fl 2000000 / 1000000) * fl (150 / 1000)) = 5404319552844595 / 2 ^ 54"
  by code_simp

lemma fl_outputCost:
  "fl (fl (fl 1000000 / 1000000) * fl (600 / 1000)) = 5404319552844595 / 2 ^ 53"
  by code_simp

lemma fl_totalCost:
  "fl (5404319552844595 / 2 ^ 54 + 5404319552844595 / 2 ^ 53) = 8106479329266892 / 2 ^ 53"
  by code_simp

lemma estimate_example:
  "estimate ''gpt-4o-mini'' 2000000 1000000 =
     Inr \<lparr>inputCost = 5404319552844595 / 2 ^ 54, outputCost = 5404319552844595 / 2 ^ 53,
          totalCost = 8106479329266892 / 2 ^ 53\<rparr>"
proof -
  have p: "MODEL_PRICING ''gpt-4o-mini'' = Some \<lparr>input_rate = 150 / 1000, output_rate = 600 / 1000\<rparr>"
    by (simp add: MODEL_PRICING_def)
  have n: "of_nat 2000000 = (2000000 :: rat)" "of_nat 1000000 = (1000000 :: rat)"
    by simp_all
  show ?thesis
    by (simp only: estimate_def p option.case Let_def n pricing.select_convs
          fl_inputCost fl_outputCost fl_totalCost)
qed

lemma toFixed_example: "toFixed_scaled 4 (8106479329266892 / 2 ^ 53) = 9000"
  by (simp add: toFixed_scaled_def floor_eq_iff)

lemma fl_small: "fl (fl (fl 1000 / 1000000) * fl (150 / 1000)) = 5534023222112865 / 2 ^ 65"
  by code_simp

lemma fl_zero: "fl (fl (fl 0 / 1000000) * fl (600 / 1000)) = 0"
  by (simp add: fl_def)

lemma fl_small_total: "fl (5534023222112865 / 2 ^ 65 + 0) = 5534023222112865 / 2 ^ 65"
  by code_simp

lemma estimate_small:
  "estimate ''gpt-4o-mini'' 1000 0 =
     Inr \<lparr>inputCost = 5534023222112865 / 2 ^ 65, outputCost = 0,
          totalCost = 5534023222112865 / 2 ^ 65\<rparr>"
proof -
  have p: "MODEL_PRICING ''gpt-4o-mini'' = Some \<lparr>input_rate = 150 / 1000, output_rate = 600 / 1000\<rparr>"
    by (simp add: MODEL_PRICING_def)
  have n: "of_nat 1000 = (1000 :: rat)" "of_nat 0 = (0 :: rat)"
    by simp_all
  show ?thesis
    by (simp only: estimate_def p option.case Let_def n pricing.select_convs
          fl_small fl_zero fl_small_total)
qed

lemma toFixed_small: "toFixed_scaled 4 (5534023222112865 / 2 ^ 65) = 1"
  by (simp add: toFixed_scaled_def floor_eq_iff)

lemma toFixed_formula_small: "toFixed_scaled 4 (3 / 20000) = 2"
  by (simp add: toFixed_scaled_def floor_eq_iff)

lemma totals_shop:
  "totalPromptTokens (processRows shop_env [mug_row, lamp_row] [] [0, 1]) = 120 \<and>
   totalCompletionTokens (processRows shop_env [mug_row, lamp_row] [] [0, 1]) = 18"
  by (simp add: processRows_def task_def skips_def existingMap_def gen_mug gen_lamp)

subsection \<open>The requests of the echoing API\<close>

lemma trim_httpfile: "trim ''httpfile.jpg'' = ''httpfile.jpg''"
  by (simp add: trim_def white_space_def startsWith_def endsWith_def)

lemma trim_data: "trim ''data:image/jpeg;base64,TWFu'' = ''data:image/jpeg;base64,TWFu''"
  by (simp add: trim_def white_space_def startsWith_def endsWith_def)

lemma trim_text_only: "trim ''text only'' = ''text only''"
  by (simp add: trim_def white_space_def startsWith_def endsWith_def)

lemma base64_Man: "base64 (map of_char ''Man'') = ''TWFu''"
  by (simp add: b64_def)

section \<open>The claims\<close>

text \<open>
  C1 (amended). Let the call of the API fail at every attempt. When every error is one
  that the retry wrapper retries, \<^verbatim>\<open>generateDescription\<close> calls \<^verbatim>\<open>callOpenAI\<close> exactly
  6 times (the first attempt and the 5 retries that the options ask for) and throws the
  error of the last attempt. When the error of attempt \<open>k\<close> is the first that is not
  retried (an \<^verbatim>\<open>AbortError\<close>, or a \<^verbatim>\<open>TypeError\<close> that is no network error), attempt
  \<open>k\<close> is the last call and its error is thrown (of an \<^verbatim>\<open>AbortError\<close>, the error that
  it wraps). The unit of a row that is not skipped catches what is thrown and writes the
  row with \<^verbatim>\<open>"ERROR: "\<close> and the message, so the run goes on.
\<close>

theorem retry_exhaustion:
  assumes fails: "\<forall>n. callOpenAI e index n (buildMessages e row) = Inl (errs n)"
    and k: "1 \<le> k \<and> k \<le> 6"
    and before: "\<forall>n. 1 \<le> n \<and> n < k \<longrightarrow> retried e (errs n)"
    and stop: "k = 6 \<or> \<not> retried e (errs k)"
  shows "generateDescription e index row = (Inl (thrown (errs k)), k) \<and>
         (\<not> skips m row \<longrightarrow>
            task e m index row st =
              st\<lparr>out := out st @ [set_field row ''Product Description''
                                     (''ERROR: '' @ message (thrown (errs k)))],
                 calls := calls st + k\<rparr>)"
proof -
  obtain j where j: "k = Suc j" using k by (cases k) simp_all
  have b: "\<forall>n. 1 \<le> n \<and> n < 1 + j \<longrightarrow> retried e (errs n)"
    using before j by simp
  have le: "j \<le> 5" using k j by simp
  have s: "j = 5 \<or> \<not> retried e (errs (1 + j))"
    using stop j by auto
  have "pRetry e (\<lambda>n. callOpenAI e index n (buildMessages e row)) 1 5 =
          (Inl (thrown (errs (1 + j))), Suc j)"
    using _ b le s by (rule pRetry_fails) (simp add: fails)
  then have g: "generateDescription e index row = (Inl (thrown (errs k)), k)"
    by (simp add: generateDescription_def j)
  then show ?thesis by (simp add: task_def)
qed

text \<open>
  C1 (amended), at an API that answers every attempt with a rate-limit error, and at one
  whose response has no text, so that reading it throws a \<^verbatim>\<open>TypeError\<close>.
\<close>

theorem retry_exhaustion_witness:
  "generateDescription env_always_failing 0 mug_row = (Inl (Error ''429 rate limit''), 6) \<and>
   task env_always_failing Map.empty 0 mug_row empty_state =
     empty_state\<lparr>out := out empty_state @
         [set_field mug_row ''Product Description'' (''ERROR: '' @ ''429 rate limit'')],
       calls := calls empty_state + 6\<rparr> \<and>
   snd (generateDescription env_null_content 0 mug_row) = 1 \<and>
   message (case fst (generateDescription env_null_content 0 mug_row) of Inl err \<Rightarrow> err | Inr g \<Rightarrow> Error [])
     = ''Cannot read properties of null (reading '' @ [CHR 0x27] @ ''trim'' @ [CHR 0x27] @ '')''"
proof -
  have f: "\<forall>n. callOpenAI env_always_failing 0 n (buildMessages env_always_failing mug_row)
             = Inl (Error ''429 rate limit'')"
    by (simp add: callOpenAI_def env_always_failing_def)
  have r: "\<forall>n::nat. 1 \<le> n \<and> n < 6 \<longrightarrow> retried env_always_failing (Error ''429 rate limit'')"
    by (simp add: retried_def)
  have s: "\<not> skips Map.empty mug_row"
    by (simp add: skips_def)
  have 1: "generateDescription env_always_failing 0 mug_row = (Inl (Error ''429 rate limit''), 6) \<and>
      task env_always_failing Map.empty 0 mug_row empty_state =
        empty_state\<lparr>out := out empty_state @
            [set_field mug_row ''Product Description'' (''ERROR: '' @ ''429 rate limit'')],
          calls := calls empty_state + 6\<rparr>"
    using retry_exhaustion[of env_always_failing 0 mug_row "\<lambda>n. Error ''429 rate limit''" 6
            Map.empty empty_state] f r s
    by simp
  let ?t = "TypeError (''Cannot read properties of null (reading '' @ [CHR 0x27] @ ''trim''
                @ [CHR 0x27] @ '')'')"
  have f': "\<forall>n. callOpenAI env_null_content 0 n (buildMessages env_null_content mug_row) = Inl ?t"
    by (simp add: callOpenAI_def env_null_content_def)
  have n: "\<not> retried env_null_content ?t"
    by (simp add: retried_def env_null_content_def network_messages_def)
  have 2: "generateDescription env_null_content 0 mug_row = (Inl ?t, 1)"
    using retry_exhaustion[of env_null_content 0 mug_row "\<lambda>n. ?t" 1 Map.empty empty_state] f' n
    by simp
  from 1 2 show ?thesis by simp
qed

text \<open>
  C1 as stated, exactly 5 calls for every call that fails at every attempt, fails twice:
  at an API that rejects every attempt the call is made 6 times, and at one whose
  response cannot be read it is made once.
\<close>

theorem five_calls_counterexample:
  "snd (generateDescription env_always_failing 0 mug_row) = 6 \<and>
   snd (generateDescription env_null_content 0 mug_row) = 1"
  by (simp add: generateDescription_def callOpenAI_def env_always_failing_def
        env_null_content_def retried_def network_messages_def eval_nat_numeral)

text \<open>
  C2 (amended). Two runs of \<^verbatim>\<open>processCSV\<close> on the same two files, the second one
  loading the output file as the first one left it. Suppose that the input file and the
  output file are different files, that every record of the input and of the prior output
  has an identifier, that no generation of the first run returned a description that is
  empty after \<^verbatim>\<open>trim()\<close>, that the first record of the prior output, when there is
  one, has the description column (the formatter takes the columns of the file from the
  first row written), and that the parser reads the written file back as the rows that the
  formatter laid out. Then the second run, in whatever order its units finish and whatever
  the API would answer, makes no call of the API, counts no token, and leaves the output
  file with the bytes that the first run wrote: the same rows in the same order.
\<close>

theorem resume_idempotent:
  assumes files: "inputFile \<noteq> outputFile"
    and input: "loadCsv e inputFile = Inr inputRows"
    and prior: "loadCsv e outputFile = Inr existingRows"
    and perm: "mset order = mset [0..<length inputRows]"
    and nonempty: "\<forall>i<length inputRows. \<not> skips (existingMap existingRows) (inputRows ! i) \<longrightarrow>
        (\<forall>g. fst (generateDescription e i (inputRows ! i)) = Inr g \<longrightarrow> description g \<noteq> [])"
    and handles: "\<forall>row\<in>set inputRows \<union> set existingRows. get_field row ''Handle'' \<noteq> None"
    and header: "existingRows \<noteq> [] \<longrightarrow>
        get_field (hd existingRows) ''Product Description'' \<noteq> None"
    and readback: "csv e (writeCsv e (out (processRows e inputRows existingRows order))) =
        (reload (out (processRows e inputRows existingRows order)), None)"
  shows "run_twice e create' inputFile outputFile modelName order order' =
           Inr ((fs e)(outputFile :=
                  Readable (writeCsv e (out (processRows e inputRows existingRows order)))),
                \<lparr>out = reload (out (processRows e inputRows existingRows order)),
                   totalPromptTokens = 0, totalCompletionTokens = 0, calls = 0\<rparr>,
                estimate modelName 0 0)"
proof -
  let ?O = "out (processRows e inputRows existingRows order)"
  let ?fs1 = "(fs e)(outputFile := Readable (writeCsv e ?O))"
  let ?e2 = "e\<lparr>fs := ?fs1, create := create'\<rparr>"
  have "loadCsv ?e2 inputFile = loadCsv e inputFile"
    using files by (intro loadCsv_cong) simp_all
  with input have in2: "loadCsv ?e2 inputFile = Inr inputRows"
    by simp
  have out2: "loadCsv ?e2 outputFile = Inr (reload ?O)"
    using readback by (simp add: loadCsv_def existsSync_def readFileSync_def push_all)
  have "\<forall>i<length inputRows. skips (existingMap (reload ?O)) (inputRows ! i)"
    using second_run_skips_reloaded[OF perm nonempty handles header] by blast
  then have st2: "processRows ?e2 inputRows (reload ?O) order' =
      \<lparr>out = reload ?O, totalPromptTokens = 0, totalCompletionTokens = 0, calls = 0\<rparr>"
    by (rule processRows_all_skipped)
  have w: "writeCsv ?e2 (reload ?O) = writeCsv e ?O"
    using writeCsv_reload[of e ?O] writeCsv_cong[of ?e2 e "reload ?O"] by simp
  have second: "processCSV ?e2 inputFile outputFile modelName order' =
      Inr (?fs1, \<lparr>out = reload ?O, totalPromptTokens = 0, totalCompletionTokens = 0, calls = 0\<rparr>,
           estimate modelName 0 0)"
    by (simp add: processCSV_def in2 out2 st2 w Let_def)
  have first: "processCSV e inputFile outputFile modelName order =
      Inr (?fs1, processRows e inputRows existingRows order,
           estimate modelName (totalPromptTokens (processRows e inputRows existingRows order))
             (totalCompletionTokens (processRows e inputRows existingRows order)))"
    by (simp add: processCSV_def input prior Let_def)
  show ?thesis
    by (simp only: run_twice_def first sum.case prod.case second)
qed

text \<open>
  C2, at the sample shop: the first run writes the failed lamp and then the mug; the second
  run, with an API that would reject every call, makes no call and has the same two rows.
\<close>

theorem resume_idempotent_witness:
  "map_sum id (calls \<circ> fst \<circ> snd)
     (run_twice shop_env (create env_always_failing) ''input.csv'' ''output.csv''
        ''gpt-4o-mini'' [1, 0] [0, 1]) = Inr 0 \<and>
   map_sum id (out \<circ> fst \<circ> snd)
     (run_twice shop_env (create env_always_failing) ''input.csv'' ''output.csv''
        ''gpt-4o-mini'' [1, 0] [0, 1]) =
     Inr [[(''Handle'', ''lamp''), (''Title'', ''Lamp''), (''Image Src'', ''img/locked.jpg''),
           (''Product Description'', ''ERROR: 500 server error'')],
          [(''Handle'', ''mug''), (''Title'', ''Mug''), (''Image Src'', ''img/mug.jpg''),
           (''Product Description'', ''A sturdy mug.'')]]"
proof -
  have files: "''input.csv'' \<noteq> ''output.csv''" by simp
  have ne: "\<forall>i<length [mug_row, lamp_row].
      \<not> skips (existingMap []) ([mug_row, lamp_row] ! i) \<longrightarrow>
      (\<forall>g. fst (generateDescription shop_env i ([mug_row, lamp_row] ! i)) = Inr g \<longrightarrow>
           description g \<noteq> [])"
    by (simp add: All_less_Suc gen_mug gen_lamp)
  have h: "\<forall>row\<in>set [mug_row, lamp_row] \<union> set []. get_field row ''Handle'' \<noteq> None"
    by (simp add: get_field_def mug_row_def lamp_row_def)
  have hd: "[] \<noteq> [] \<longrightarrow> get_field (hd []) ''Product Description'' \<noteq> None"
    by simp
  note t = resume_idempotent[OF files load_input load_output perm_10 ne h hd readback1,
      where create' = "create env_always_failing" and modelName = "''gpt-4o-mini''"
        and order' = "[0, 1]"]
  show ?thesis
    unfolding t reload1 by simp
qed

text \<open>
  C2 as first stated fails in two ways. When the API answers with a no-break space, the
  description is written empty and the second run calls the API again for both rows. When
  the output file of an earlier tool has no description column, the first run writes the
  descriptions under no column, and the second run makes the eight calls of the first run
  again.
\<close>

theorem resume_idempotent_counterexample:
  "map_sum id (calls \<circ> fst \<circ> snd)
     (run_twice blank_shop_env (create blank_shop_env) ''input.csv'' ''output.csv''
        ''gpt-4o-mini'' [0, 1] [0, 1]) = Inr 2 \<and>
   map_sum id (calls \<circ> fst \<circ> snd)
     (run_twice bare_shop_env (create bare_shop_env) ''input.csv'' ''output.csv''
        ''gpt-4o-mini'' [0, 1] [0, 1]) = Inr 8"
proof -
  have files: "''input.csv'' \<noteq> ''output.csv''" by simp
  have blank: "map_sum id (calls \<circ> fst \<circ> snd)
     (run_twice blank_shop_env (create blank_shop_env) ''input.csv'' ''output.csv''
        ''gpt-4o-mini'' [0, 1] [0, 1]) = Inr 2"
    unfolding run_twice_calls[OF files load_input_blank load_output_blank written_blank
        readback_blank]
    by (simp add: calls_processRows unit_calls_def skips_def existingMap_def gen_blank_reply
        blank_shop_env_def get_field_def mug_row_def lamp_row_def)
  have bare: "map_sum id (calls \<circ> fst \<circ> snd)
     (run_twice bare_shop_env (create bare_shop_env) ''input.csv'' ''output.csv''
        ''gpt-4o-mini'' [0, 1] [0, 1]) = Inr 8"
    unfolding run_twice_calls[OF files load_input_bare load_output_bare written_bare
        readback_bare]
    by (simp add: calls_processRows unit_calls_def skips_def existingMap_def gen_shop_first
        gen_shop_other bare_shop_env_def get_field_def mug_row_def lamp_row_def)
  show ?thesis
    using blank bare by simp
qed

text \<open>
  C3. The unit of an input row makes no call of the API if and only if the index has the
  row's identifier and the description of the record found there is not empty; it
  then leaves the state as it is. A row whose identifier is in the index with an empty
  or missing description is processed: calls are made and one row is written.
\<close>

theorem skip_policy:
  "(calls (task e m index row st) = calls st) =
     (\<exists>r d. m (get_field row ''Handle'') = Some r \<and>
            get_field r ''Product Description'' = Some d \<and> d \<noteq> [])
   \<and> ((\<exists>r d. m (get_field row ''Handle'') = Some r \<and>
            get_field r ''Product Description'' = Some d \<and> d \<noteq> []) \<longrightarrow>
        task e m index row st = st)
   \<and> (m (get_field row ''Handle'') = Some r' \<and>
        get_field r' ''Product Description'' \<in> {None, Some []} \<longrightarrow>
        calls st < calls (task e m index row st) \<and>
        length (out (task e m index row st)) = Suc (length (out st)))"
proof -
  have sk: "skips m row =
     (\<exists>r d. m (get_field row ''Handle'') = Some r \<and>
            get_field r ''Product Description'' = Some d \<and> d \<noteq> [])"
  proof (cases "m (get_field row ''Handle'')")
    case None
    then show ?thesis by (simp add: skips_def)
  next
    case (Some r)
    then show ?thesis
      by (cases "get_field r ''Product Description''") (simp_all add: skips_def)
  qed
  have pos: "0 < snd (generateDescription e index row)"
    by (rule generateDescription_calls_pos)
  have a: "(calls (task e m index row st) = calls st) = skips m row"
    using pos by (simp add: calls_task)
  have b: "skips m row \<longrightarrow> task e m index row st = st"
    by (simp add: task_def)
  have c: "m (get_field row ''Handle'') = Some r' \<and>
        get_field r' ''Product Description'' \<in> {None, Some []} \<longrightarrow>
        calls st < calls (task e m index row st) \<and>
        length (out (task e m index row st)) = Suc (length (out st))"
  proof (intro impI, elim conjE)
    assume "m (get_field row ''Handle'') = Some r'"
      and "get_field r' ''Product Description'' \<in> {None, Some []}"
    then have "\<not> skips m row" by (auto simp: skips_def)
    with pos show "calls st < calls (task e m index row st) \<and>
        length (out (task e m index row st)) = Suc (length (out st))"
      by (simp add: calls_task out_task)
  qed
  from a b c show ?thesis unfolding sk by blast
qed

text \<open>C3, at an index that holds a finished record and at one that holds an unfinished one.\<close>

theorem skip_policy_witness:
  "task env_always_failing [Some ''mug'' \<mapsto> done_mug] 0 mug_row empty_state = empty_state \<and>
   calls empty_state < calls (task env_always_failing [Some ''mug'' \<mapsto> stale_mug] 0 mug_row empty_state) \<and>
   length (out (task env_always_failing [Some ''mug'' \<mapsto> stale_mug] 0 mug_row empty_state))
     = Suc (length (out empty_state))"
proof -
  have d: "\<exists>r d. [Some ''mug'' \<mapsto> done_mug] (get_field mug_row ''Handle'') = Some r \<and>
            get_field r ''Product Description'' = Some d \<and> d \<noteq> []"
    by (simp add: get_field_def mug_row_def done_mug_def)
  have s: "[Some ''mug'' \<mapsto> stale_mug] (get_field mug_row ''Handle'') = Some stale_mug \<and>
        get_field stale_mug ''Product Description'' \<in> {None, Some []}"
    by (simp add: get_field_def mug_row_def stale_mug_def)
  from skip_policy[of env_always_failing "[Some ''mug'' \<mapsto> done_mug]" 0 mug_row empty_state] d
  have 1: "task env_always_failing [Some ''mug'' \<mapsto> done_mug] 0 mug_row empty_state = empty_state"
    by blast
  from skip_policy[of env_always_failing "[Some ''mug'' \<mapsto> stale_mug]" 0 mug_row empty_state stale_mug] s
  have 2: "calls empty_state < calls (task env_always_failing [Some ''mug'' \<mapsto> stale_mug] 0 mug_row empty_state) \<and>
   length (out (task env_always_failing [Some ''mug'' \<mapsto> stale_mug] 0 mug_row empty_state))
     = Suc (length (out empty_state))"
    by blast
  from 1 2 show ?thesis by blast
qed




text \<open>
  C5. When no identifier of an input row occurs in the prior output, the output of a
  run has as many rows as the input and the prior output together, whatever the order
  in which the units finish.
\<close>

theorem row_completeness:
  assumes "mset order = mset [0..<length inputRows]"
    and "\<forall>row\<in>set inputRows.
           get_field row ''Handle'' \<notin> (\<lambda>r. get_field r ''Handle'') ` set existingRows"
  shows "length (out (processRows e inputRows existingRows order)) =
           length inputRows + length existingRows"
proof -
  let ?m = "existingMap existingRows"
  have one: "length (unit_rows e ?m inputRows i) = 1" if "i < length inputRows" for i
  proof -
    from that have "inputRows ! i \<in> set inputRows" by (rule nth_mem)
    with assms(2) have "get_field (inputRows ! i) ''Handle''
        \<notin> (\<lambda>r. get_field r ''Handle'') ` set existingRows"
      by blast
    then have "\<forall>r\<in>set existingRows. get_field r ''Handle'' \<noteq> get_field (inputRows ! i) ''Handle''"
      by (auto simp: image_iff)
    then have "filter (\<lambda>r. get_field r ''Handle'' = get_field (inputRows ! i) ''Handle'') existingRows = []"
      by (simp add: filter_empty_conv)
    then have "\<not> skips ?m (inputRows ! i)"
      by (simp add: skips_def existingMap_last)
    with that show ?thesis by (simp add: unit_rows_def)
  qed
  have "mset (concat (map (unit_rows e ?m inputRows) order)) =
        mset (concat (map (unit_rows e ?m inputRows) [0..<length inputRows]))"
    using assms(1) by (rule mset_concat_map_perm)
  then have "length (concat (map (unit_rows e ?m inputRows) order)) =
        length (concat (map (unit_rows e ?m inputRows) [0..<length inputRows]))"
    by (rule mset_eq_length)
  also have "\<dots> = sum_list (map (\<lambda>i. length (unit_rows e ?m inputRows i)) [0..<length inputRows])"
    by (simp add: length_concat comp_def)
  also have "\<dots> = sum_list (map (\<lambda>i. 1) [0..<length inputRows])"
    by (rule arg_cong[where f = sum_list], rule map_cong) (simp_all add: one)
  also have "\<dots> = length inputRows"
    by (simp add: sum_list_triv)
  finally show ?thesis by (simp add: out_processRows)
qed

text \<open>C5, at two input rows and one prior record of another product.\<close>

theorem row_completeness_witness:
  "length (out (processRows shop_env [mug_row, lamp_row] [vase_done] [1, 0])) =
     length [mug_row, lamp_row] + length [vase_done]"
proof -
  have d: "\<forall>row\<in>set [mug_row, lamp_row].
       get_field row ''Handle'' \<notin> (\<lambda>r. get_field r ''Handle'') ` set [vase_done]"
    by (simp add: get_field_def mug_row_def lamp_row_def vase_done_def)
  show ?thesis
    by (rule row_completeness[OF perm_10 d])
qed

text \<open>
  C6 (amended). For a model of the pricing table the reported cost is the formula
  \<open>promptTotal / 10\<^sup>6 \<times> input + completionTotal / 10\<^sup>6 \<times> output\<close>, with the rates of
  the model's entry, evaluated in the binary64 arithmetic of JavaScript: it is within a
  relative error of \<open>6 / 2\<^sup>5\<^sup>3\<close> of the exact value of the formula, and it is what
  \<^verbatim>\<open>processCSV\<close> computes from the totals of its run. For 2,000,000 prompt tokens and
  1,000,000 completion tokens at the rates 0.150 and 0.600 of \<^verbatim>\<open>gpt-4o-mini\<close> the formula
  gives 0.9 and the code computes \<open>8106479329266892 / 2\<^sup>5\<^sup>3\<close>, the binary64 number
  0.8999999999999999, which \<^verbatim>\<open>toFixed(4)\<close> prints as 0.9000.
\<close>

theorem cost_estimate:
  "(MODEL_PRICING modelName = Some p \<longrightarrow>
      (\<exists>c. estimate modelName promptTotal completionTotal = Inr c \<and>
         \<bar>totalCost c - formula_cost p promptTotal completionTotal\<bar>
           \<le> 6 / 2 ^ 53 * formula_cost p promptTotal completionTotal)) \<and>
   (processCSV e inputFile outputFile modelName order = Inr (files, st, c) \<longrightarrow>
      c = estimate modelName (totalPromptTokens st) (totalCompletionTokens st)) \<and>
   MODEL_PRICING ''gpt-4o-mini'' = Some \<lparr>input_rate = 150 / 1000, output_rate = 600 / 1000\<rparr> \<and>
   formula_cost \<lparr>input_rate = 150 / 1000, output_rate = 600 / 1000\<rparr> 2000000 1000000 = 9 / 10 \<and>
   estimate ''gpt-4o-mini'' 2000000 1000000 =
     Inr \<lparr>inputCost = 5404319552844595 / 2 ^ 54, outputCost = 5404319552844595 / 2 ^ 53,
          totalCost = 8106479329266892 / 2 ^ 53\<rparr> \<and>
   toFixed_scaled 4 (8106479329266892 / 2 ^ 53) = 9000"
proof -
  have a: "MODEL_PRICING modelName = Some p \<longrightarrow>
      (\<exists>c. estimate modelName promptTotal completionTotal = Inr c \<and>
         \<bar>totalCost c - formula_cost p promptTotal completionTotal\<bar>
           \<le> 6 / 2 ^ 53 * formula_cost p promptTotal completionTotal)"
    using estimate_close by blast
  have b: "processCSV e inputFile outputFile modelName order = Inr (files, st, c) \<longrightarrow>
      c = estimate modelName (totalPromptTokens st) (totalCompletionTokens st)"
    by (auto simp: processCSV_def Let_def split: sum.splits)
  have c: "MODEL_PRICING ''gpt-4o-mini'' = Some \<lparr>input_rate = 150 / 1000, output_rate = 600 / 1000\<rparr>"
    by (simp add: MODEL_PRICING_def)
  have d: "formula_cost \<lparr>input_rate = 150 / 1000, output_rate = 600 / 1000\<rparr> 2000000 1000000 = 9 / 10"
    by (simp add: formula_cost_def)
  from a b c d estimate_example toFixed_example show ?thesis by blast
qed

text \<open>
  C6, at the totals 1000 and 0, and at the first run of the sample shop, whose totals are
  120 and 18.
\<close>

theorem cost_estimate_witness:
  "\<bar>totalCost (projr (estimate ''gpt-4o-mini'' 1000 0)) - 3 / 20000\<bar>
     \<le> 6 / 2 ^ 53 * (3 / 20000) \<and>
   snd (snd (projr (processCSV shop_env ''input.csv'' ''output.csv'' ''gpt-4o-mini'' [0, 1]))) =
     estimate ''gpt-4o-mini'' 120 18"
proof -
  let ?p = "\<lparr>input_rate = 150 / 1000, output_rate = 600 / 1000\<rparr>"
  let ?st = "processRows shop_env [mug_row, lamp_row] [] [0, 1]"
  have p: "MODEL_PRICING ''gpt-4o-mini'' = Some ?p"
    by (simp add: MODEL_PRICING_def)
  from cost_estimate[where modelName = "''gpt-4o-mini''" and p = ?p and promptTotal = 1000
      and completionTotal = 0] p
  obtain c where c: "estimate ''gpt-4o-mini'' 1000 0 = Inr c"
    and near: "\<bar>totalCost c - formula_cost ?p 1000 0\<bar> \<le> 6 / 2 ^ 53 * formula_cost ?p 1000 0"
    by blast
  have f: "formula_cost ?p 1000 0 = 3 / 20000"
    by (simp add: formula_cost_def)
  have 1: "\<bar>totalCost (projr (estimate ''gpt-4o-mini'' 1000 0)) - 3 / 20000\<bar>
     \<le> 6 / 2 ^ 53 * (3 / 20000)"
    using near unfolding f c by simp
  have run: "processCSV shop_env ''input.csv'' ''output.csv'' ''gpt-4o-mini'' [0, 1] =
      Inr ((fs shop_env)(''output.csv'' := Readable (writeCsv shop_env (out ?st))), ?st,
           estimate ''gpt-4o-mini'' (totalPromptTokens ?st) (totalCompletionTokens ?st))"
    by (simp add: processCSV_def load_input load_output Let_def)
  from cost_estimate[where e = shop_env and inputFile = "''input.csv''"
      and outputFile = "''output.csv''" and modelName = "''gpt-4o-mini''" and order = "[0, 1]"
      and files = "(fs shop_env)(''output.csv'' := Readable (writeCsv shop_env (out ?st)))"
      and st = ?st
      and c = "estimate ''gpt-4o-mini'' (totalPromptTokens ?st) (totalCompletionTokens ?st)"] run
  have "snd (snd (projr (processCSV shop_env ''input.csv'' ''output.csv'' ''gpt-4o-mini'' [0, 1]))) =
     estimate ''gpt-4o-mini'' (totalPromptTokens ?st) (totalCompletionTokens ?st)"
    by simp
  then have 2: "snd (snd (projr (processCSV shop_env ''input.csv'' ''output.csv''
      ''gpt-4o-mini'' [0, 1]))) = estimate ''gpt-4o-mini'' 120 18"
    by (simp only: totals_shop)
  from 1 2 show ?thesis by blast
qed

text \<open>
  C6 as first stated fails: at the totals of its example the computed cost is not 0.9 but
  a number below it; and at the totals 1000 and 0 the formula gives 0.00015, which would
  be printed as 0.0002, while the code computes a number below it and prints 0.0001.
\<close>

theorem cost_estimate_counterexample:
  "map_sum id totalCost (estimate ''gpt-4o-mini'' 2000000 1000000) =
     Inr (8106479329266892 / 2 ^ 53) \<and>
   (8106479329266892 / 2 ^ 53 :: rat) < 9 / 10 \<and>
   formula_cost \<lparr>input_rate = 150 / 1000, output_rate = 600 / 1000\<rparr> 1000 0 = 3 / 20000 \<and>
   toFixed_scaled 4 (3 / 20000) = 2 \<and>
   map_sum id (toFixed_scaled 4 \<circ> totalCost) (estimate ''gpt-4o-mini'' 1000 0) = Inr 1"
proof -
  have 1: "map_sum id totalCost (estimate ''gpt-4o-mini'' 2000000 1000000) =
     Inr (8106479329266892 / 2 ^ 53)"
    by (simp only: estimate_example map_sum.simps cost.select_convs)
  have 2: "(8106479329266892 / 2 ^ 53 :: rat) < 9 / 10"
    by simp
  have 3: "formula_cost \<lparr>input_rate = 150 / 1000, output_rate = 600 / 1000\<rparr> 1000 0 = 3 / 20000"
    by (simp add: formula_cost_def)
  have 4: "map_sum id (toFixed_scaled 4 \<circ> totalCost) (estimate ''gpt-4o-mini'' 1000 0) = Inr 1"
    by (simp only: estimate_small map_sum.simps cost.select_convs comp_apply toFixed_small)
  from 1 2 3 toFixed_formula_small 4 show ?thesis by blast
qed

text \<open>
  C7. The request that \<^verbatim>\<open>generateDescription\<close> sends for a row, at every attempt. The
  test of the code for a remote image is that \<^verbatim>\<open>Image Src\<close> begins with the four
  letters \<^verbatim>\<open>http\<close>: then the image goes by reference. Otherwise, when the path is that
  of a readable file, the image goes inline, base64 encoded. Otherwise (no value, nothing
  at the path, or a read that throws) the request has the text alone, and the generation
  goes on. The test is not that of a network scheme: a readable local file whose name
  begins with \<^verbatim>\<open>http\<close> is sent by reference and never read, and a locator whose scheme
  is written in upper case is looked for on the disk and, not being there, left out.
\<close>

theorem image_resolution:
  "(get_field row ''Image Src'' = Some url \<and> url \<noteq> [] \<and> startsWith url ''http'' \<longrightarrow>
      generateDescription e index row =
        pRetry e (\<lambda>n. callOpenAI e index n
          [Message ''user'' [Text (prompt e row), Image_url url]]) 1 5) \<and>
   (get_field row ''Image Src'' = Some url \<and> url \<noteq> [] \<and> \<not> startsWith url ''http'' \<and>
    fs e url = Readable bytes \<longrightarrow>
      generateDescription e index row =
        pRetry e (\<lambda>n. callOpenAI e index n
          [Message ''user'' [Text (prompt e row),
             Image_url (''data:image/jpeg;base64,'' @ base64 (map of_char bytes))]]) 1 5) \<and>
   (get_field row ''Image Src'' = None \<or> get_field row ''Image Src'' = Some [] \<or>
    (get_field row ''Image Src'' = Some url \<and> \<not> startsWith url ''http'' \<and>
     (fs e url = Missing \<or> fs e url = Unreadable err)) \<longrightarrow>
      generateDescription e index row =
        pRetry e (\<lambda>n. callOpenAI e index n [Message ''user'' [Text (prompt e row)]]) 1 5)"
  by (auto simp: buildMessages_def imageParts_def existsSync_def readFileSync_def
        generateDescription_def)

text \<open>
  C7, at an API that answers with the image reference it was sent: the readable local file
  \<^verbatim>\<open>httpfile.jpg\<close>, which begins with no network scheme, reaches the API as a reference;
  the readable local file \<^verbatim>\<open>img/mug.jpg\<close> reaches it inline; the locator
  \<^verbatim>\<open>HTTPS://cdn.example.com/banner.jpg\<close>, which begins with a network scheme, does not
  reach it at all.
\<close>

theorem image_resolution_witness:
  "get_field poster_row ''Image Src'' = Some ''httpfile.jpg'' \<and>
   \<not> begins_with_network_scheme ''httpfile.jpg'' \<and>
   fs echo_env ''httpfile.jpg'' = Readable ''Man'' \<and>
   generateDescription echo_env 0 poster_row =
     (Inr \<lparr>description = ''httpfile.jpg'',
          usage = \<lparr>prompt_tokens = 120, completion_tokens = 18\<rparr>\<rparr>, 1) \<and>
   get_field mug_row ''Image Src'' = Some ''img/mug.jpg'' \<and>
   fs echo_env ''img/mug.jpg'' = Readable ''Man'' \<and>
   generateDescription echo_env 1 mug_row =
     (Inr \<lparr>description = ''data:image/jpeg;base64,TWFu'',
          usage = \<lparr>prompt_tokens = 120, completion_tokens = 18\<rparr>\<rparr>, 1) \<and>
   get_field banner_row ''Image Src'' = Some ''HTTPS://cdn.example.com/banner.jpg'' \<and>
   begins_with_network_scheme ''HTTPS://cdn.example.com/banner.jpg'' \<and>
   generateDescription echo_env 2 banner_row =
     (Inr \<lparr>description = ''text only'',
          usage = \<lparr>prompt_tokens = 120, completion_tokens = 18\<rparr>\<rparr>, 1)"
proof -
  have p: "get_field poster_row ''Image Src'' = Some ''httpfile.jpg'' \<and> ''httpfile.jpg'' \<noteq> [] \<and>
      startsWith ''httpfile.jpg'' ''http''"
    by (simp add: get_field_def poster_row_def startsWith_def)
  have pn: "\<not> begins_with_network_scheme ''httpfile.jpg''"
    by code_simp
  have pf: "fs echo_env ''httpfile.jpg'' = Readable ''Man''"
    by (simp add: echo_env_def)
  have m: "get_field mug_row ''Image Src'' = Some ''img/mug.jpg'' \<and> ''img/mug.jpg'' \<noteq> [] \<and>
      \<not> startsWith ''img/mug.jpg'' ''http'' \<and> fs echo_env ''img/mug.jpg'' = Readable ''Man''"
    by (simp add: get_field_def mug_row_def startsWith_def echo_env_def)
  have b: "get_field banner_row ''Image Src'' = None \<or>
      get_field banner_row ''Image Src'' = Some [] \<or>
      (get_field banner_row ''Image Src'' = Some ''HTTPS://cdn.example.com/banner.jpg'' \<and>
       \<not> startsWith ''HTTPS://cdn.example.com/banner.jpg'' ''http'' \<and>
       (fs echo_env ''HTTPS://cdn.example.com/banner.jpg'' = Missing \<or>
        fs echo_env ''HTTPS://cdn.example.com/banner.jpg'' = Unreadable (Error ''ENOENT'')))"
    by (simp add: get_field_def banner_row_def startsWith_def echo_env_def)
  have bs: "begins_with_network_scheme ''HTTPS://cdn.example.com/banner.jpg''"
    by code_simp
  from image_resolution[where row = poster_row and url = "''httpfile.jpg''" and e = echo_env
      and index = 0] p
  have "generateDescription echo_env 0 poster_row =
      pRetry echo_env (\<lambda>n. callOpenAI echo_env 0 n
        [Message ''user'' [Text (prompt echo_env poster_row), Image_url ''httpfile.jpg'']]) 1 5"
    by blast
  then have 1: "generateDescription echo_env 0 poster_row =
     (Inr \<lparr>description = ''httpfile.jpg'',
          usage = \<lparr>prompt_tokens = 120, completion_tokens = 18\<rparr>\<rparr>, 1)"
    by (simp add: callOpenAI_def echo_env_def sent_image_def eval_nat_numeral trim_httpfile)
  from image_resolution[where row = mug_row and url = "''img/mug.jpg''" and e = echo_env
      and index = 1 and bytes = "''Man''"] m
  have "generateDescription echo_env 1 mug_row =
      pRetry echo_env (\<lambda>n. callOpenAI echo_env 1 n
        [Message ''user'' [Text (prompt echo_env mug_row),
           Image_url (''data:image/jpeg;base64,'' @ base64 (map of_char ''Man''))]]) 1 5"
    by blast
  then have 2: "generateDescription echo_env 1 mug_row =
     (Inr \<lparr>description = ''data:image/jpeg;base64,TWFu'',
          usage = \<lparr>prompt_tokens = 120, completion_tokens = 18\<rparr>\<rparr>, 1)"
    unfolding base64_Man
    by (simp add: callOpenAI_def echo_env_def sent_image_def eval_nat_numeral trim_data)
  from image_resolution[where row = banner_row
      and url = "''HTTPS://cdn.example.com/banner.jpg''" and e = echo_env and index = 2
      and err = "Error ''ENOENT''"] b
  have "generateDescription echo_env 2 banner_row =
      pRetry echo_env (\<lambda>n. callOpenAI echo_env 2 n
        [Message ''user'' [Text (prompt echo_env banner_row)]]) 1 5"
    by blast
  then have 3: "generateDescription echo_env 2 banner_row =
     (Inr \<lparr>description = ''text only'',
          usage = \<lparr>prompt_tokens = 120, completion_tokens = 18\<rparr>\<rparr>, 1)"
    by (simp add: callOpenAI_def echo_env_def sent_image_def eval_nat_numeral trim_text_only)
  from p pn pf 1 m 2 b bs 3 show ?thesis
    by (simp add: get_field_def banner_row_def)
qed

text \<open>
  C8. Loading a path where nothing is gives the empty sequence and no error; loading a
  file gives the rows that the parser emits, in their order; and a run whose output file
  does not exist yet is the run on the empty prior output.
\<close>

theorem dataset_loader:
  "(fs e file = Missing \<longrightarrow> loadCsv e file = Inr []) \<and>
   (fs e file = Readable bytes \<and> csv e bytes = (rows, None) \<longrightarrow> loadCsv e file = Inr rows) \<and>
   (loadCsv e inputFile = Inr inputRows \<and> fs e outputFile = Missing \<longrightarrow>
      processCSV e inputFile outputFile modelName order =
        Inr ((fs e)(outputFile := Readable (writeCsv e (out (processRows e inputRows [] order)))),
             processRows e inputRows [] order,
             estimate modelName (totalPromptTokens (processRows e inputRows [] order))
               (totalCompletionTokens (processRows e inputRows [] order))))"
  by (simp add: loadCsv_def existsSync_def readFileSync_def push_all processCSV_def Let_def)

text \<open>C8, at a first run: the input file is there, the output file is not.\<close>

theorem dataset_loader_witness:
  "loadCsv shop_env ''output.csv'' = Inr [] \<and>
   loadCsv shop_env ''input.csv'' = Inr [mug_row, lamp_row] \<and>
   processCSV shop_env ''input.csv'' ''output.csv'' ''gpt-4o-mini'' [0, 1] =
     Inr ((fs shop_env)(''output.csv'' :=
            Readable (writeCsv shop_env (out (processRows shop_env [mug_row, lamp_row] [] [0, 1])))),
          processRows shop_env [mug_row, lamp_row] [] [0, 1],
          estimate ''gpt-4o-mini''
            (totalPromptTokens (processRows shop_env [mug_row, lamp_row] [] [0, 1]))
            (totalCompletionTokens (processRows shop_env [mug_row, lamp_row] [] [0, 1])))"
proof -
  have o: "fs shop_env ''output.csv'' = Missing"
    by (simp add: shop_env_def)
  have i: "fs shop_env ''input.csv'' = Readable input_csv_bytes \<and>
           csv shop_env input_csv_bytes = ([mug_row, lamp_row], None)"
    by (simp add: shop_env_def plain_parse_def input_csv_bytes_def mug_row_def lamp_row_def)
  from dataset_loader[of shop_env "''output.csv''"] o
  have 1: "loadCsv shop_env ''output.csv'' = Inr []" by blast
  from dataset_loader[of shop_env "''input.csv''" input_csv_bytes "[mug_row, lamp_row]"] i
  have 2: "loadCsv shop_env ''input.csv'' = Inr [mug_row, lamp_row]" by blast
  from dataset_loader[of shop_env _ _ _ "''input.csv''" "[mug_row, lamp_row]" "''output.csv''"
         "''gpt-4o-mini''" "[0, 1]"] 2 o
  have 3: "processCSV shop_env ''input.csv'' ''output.csv'' ''gpt-4o-mini'' [0, 1] =
     Inr ((fs shop_env)(''output.csv'' :=
            Readable (writeCsv shop_env (out (processRows shop_env [mug_row, lamp_row] [] [0, 1])))),
          processRows shop_env [mug_row, lamp_row] [] [0, 1],
          estimate ''gpt-4o-mini''
            (totalPromptTokens (processRows shop_env [mug_row, lamp_row] [] [0, 1]))
            (totalCompletionTokens (processRows shop_env [mug_row, lamp_row] [] [0, 1])))"
    by blast
  from 1 2 3 show ?thesis by blast
qed

text \<open>
  C10. When the prior output has records with the identifier \<open>h\<close>, the index maps
  \<open>h\<close> to the last of them in file order, and an input row with that identifier is
  skipped exactly when the description of that last record is not empty.
\<close>

theorem resume_index_last_wins:
  assumes "filter (\<lambda>r. get_field r ''Handle'' = h) existingRows \<noteq> []"
  shows "existingMap existingRows h =
           Some (last (filter (\<lambda>r. get_field r ''Handle'' = h) existingRows)) \<and>
         (get_field row ''Handle'' = h \<longrightarrow>
            skips (existingMap existingRows) row =
              truthy (get_field (last (filter (\<lambda>r. get_field r ''Handle'' = h) existingRows))
                        ''Product Description''))"
  using assms by (simp add: existingMap_last skips_def)

text \<open>C10, at two prior outputs with the same two records in opposite orders.\<close>

theorem resume_index_last_wins_witness:
  "existingMap [done_mug, stale_mug] (Some ''mug'') = Some stale_mug \<and>
   skips (existingMap [done_mug, stale_mug]) mug_row = False \<and>
   existingMap [stale_mug, done_mug] (Some ''mug'') = Some done_mug \<and>
   skips (existingMap [stale_mug, done_mug]) mug_row = True"
proof -
  have f1: "filter (\<lambda>r. get_field r ''Handle'' = Some ''mug'') [done_mug, stale_mug] = [done_mug, stale_mug]"
    by (simp add: get_field_def done_mug_def stale_mug_def)
  have f2: "filter (\<lambda>r. get_field r ''Handle'' = Some ''mug'') [stale_mug, done_mug] = [stale_mug, done_mug]"
    by (simp add: get_field_def done_mug_def stale_mug_def)
  have h: "get_field mug_row ''Handle'' = Some ''mug''"
    by (simp add: get_field_def mug_row_def)
  have t1: "truthy (get_field stale_mug ''Product Description'') = False"
    by (simp add: get_field_def stale_mug_def)
  have t2: "truthy (get_field done_mug ''Product Description'') = True"
    by (simp add: get_field_def done_mug_def)
  have n1: "filter (\<lambda>r. get_field r ''Handle'' = Some ''mug'') [done_mug, stale_mug] \<noteq> []"
    by (simp only: f1) simp
  have n2: "filter (\<lambda>r. get_field r ''Handle'' = Some ''mug'') [stale_mug, done_mug] \<noteq> []"
    by (simp only: f2) simp
  from resume_index_last_wins[OF n1, of mug_row, unfolded f1]
       resume_index_last_wins[OF n2, of mug_row, unfolded f2]
  show ?thesis
    by (simp add: h t1 t2)
qed

end
